theory Spec2Isabelle
  imports Main
begin

section \<open>Statefulia: a keyed state container with persistence and change events\<close>

text \<open>
  The development embeds the three classes of the library: \<open>State\<close> (src/State.ts),
  \<open>StateElement\<close> and \<open>StateComponent\<close>. Every method becomes a function that
  takes the state of the registry and returns the new state together with the
  thrown error, if any. A throw does not undo the writes made before it, so the state
  is returned in the error case as well.

  The library runs on top of browser primitives that are not part of it. Those whose
  behaviour is a fixed, small function (\<open>typeof\<close>, \<open>Boolean\<close>, \<open>toString\<close> on
  booleans, big integers and symbols, \<open>EventTarget\<close>, \<open>localStorage\<close>) are written
  out. Those that depend on floating point or on the JSON grammar
  (\<open>Number.prototype.toString\<close>, \<open>Number\<close>, \<open>Number.parseFloat\<close>,
  \<open>JSON.stringify\<close>, \<open>JSON.parse\<close>) are parameters, collected in the record
  \<open>host\<close>; numbers and objects are the type parameters \<open>'n\<close> and \<open>'o\<close>.
  Theorems hold for every host.

  What is taken for granted about the surroundings: the browser's store has room for
  every write; user callbacks (\<open>onBeforeSet\<close>, an overriding \<open>$onStateChange\<close>)
  return normally and do not call back into the registry; nobody writes to the
  configuration objects after construction. Logging under \<open>useLogs\<close> changes
  nothing and is left out.
\<close>

subsection \<open>Values and their runtime kinds\<close>

text \<open>
  The result of \<open>typeof\<close>. \<open>StorageValueType\<close> of State.ts is the first six;
  \<open>undefined\<close> and \<open>function\<close> are the two further results the code tests for.
\<close>

datatype StorageValueType =
  TBigint | TBoolean | TSymbol | TNumber | TObject | TString | TUndefined | TFunction

text \<open>
  A JavaScript value. A symbol has an identity and an optional description; a function
  has an identity; \<open>null\<close>, arrays and plain objects are all values of \<open>'o\<close>
  (for each of them \<open>typeof\<close> is \<open>"object"\<close>).
\<close>

datatype ('n, 'o) StorageValue =
    VBigint int
  | VBoolean bool
  | VSymbol nat "string option"
  | VNumber 'n
  | VObject 'o
  | VString string
  | VUndefined
  | VFunction nat

fun typeof :: "('n, 'o) StorageValue \<Rightarrow> StorageValueType" where
  "typeof (VBigint _) = TBigint"
| "typeof (VBoolean _) = TBoolean"
| "typeof (VSymbol _ _) = TSymbol"
| "typeof (VNumber _) = TNumber"
| "typeof (VObject _) = TObject"
| "typeof (VString _) = TString"
| "typeof VUndefined = TUndefined"
| "typeof (VFunction _) = TFunction"

text \<open>
  The errors the library throws, named after their messages: "Element already
  initialized" (the spec's DuplicateKey), "Element not initialized" (UnknownKey),
  "Value type ... is not supported" (UnsupportedType), "Expected value type ... but got
  ..." (TypeMismatch, with the expected and the actual kind). \<open>HostError\<close> is an
  exception of a host function (a \<open>SyntaxError\<close> of \<open>JSON.parse\<close>, a
  \<open>TypeError\<close> of \<open>JSON.stringify\<close>).
\<close>

datatype error =
    ElementAlreadyInitialized
  | ElementNotInitialized
  | ValueTypeNotSupported StorageValueType
  | TypeMismatch StorageValueType StorageValueType
  | HostError string

text \<open>
  The host functions. \<open>JSON_stringify\<close> and \<open>JSON_parse\<close> may throw.
  \<open>JSON_parse\<close> returns any value, not only an object. \<open>JSON_stringify\<close>
  returns the string that \<open>localStorage.setItem\<close> is given to store.
\<close>

record ('n, 'o) host =
  numberToString :: "'n \<Rightarrow> string"
  Number :: "string \<Rightarrow> 'n"
  parseFloat :: "string \<Rightarrow> 'n"
  JSON_stringify :: "'o \<Rightarrow> error + string"
  JSON_parse :: "string \<Rightarrow> error + ('n, 'o) StorageValue"

subsection \<open>The codec: valueToString and valueFromString\<close>

text \<open>Decimal digits of a big integer, as \<open>BigInt.prototype.toString\<close> prints them.\<close>

fun natToString :: "nat \<Rightarrow> string" where
  "natToString n =
     (if n < 10 then [''0123456789'' ! n]
      else natToString (n div 10) @ [''0123456789'' ! (n mod 10)])"

definition bigintToString :: "int \<Rightarrow> string" where
  "bigintToString i = (if i < 0 then ''-'' @ natToString (nat (- i)) else natToString (nat i))"

definition booleanToString :: "bool \<Rightarrow> string" where
  "booleanToString b = (if b then ''true'' else ''false'')"

definition symbolToString :: "string option \<Rightarrow> string" where
  "symbolToString d = ''Symbol('' @ (case d of None \<Rightarrow> [] | Some x \<Rightarrow> x) @ '')''"

text \<open>
  \<open>State.valueToString\<close>: a switch on \<open>typeof value\<close>. The four kinds of the first
  group call \<open>value.toString()\<close>, an object goes through \<open>JSON.stringify\<close>, a
  string is returned as it is, and the two other kinds throw.
\<close>

fun valueToString :: "('n, 'o) host \<Rightarrow> ('n, 'o) StorageValue \<Rightarrow> error + string" where
  "valueToString h (VBigint i) = Inr (bigintToString i)"
| "valueToString h (VBoolean b) = Inr (booleanToString b)"
| "valueToString h (VSymbol n d) = Inr (symbolToString d)"
| "valueToString h (VNumber x) = Inr (numberToString h x)"
| "valueToString h (VObject ob) = JSON_stringify h ob"
| "valueToString h (VString s) = Inr s"
| "valueToString h VUndefined = Inl (ValueTypeNotSupported TUndefined)"
| "valueToString h (VFunction f) = Inl (ValueTypeNotSupported TFunction)"

text \<open>\<open>Boolean(s)\<close> on a string: every string but the empty one is truthy.\<close>

definition Boolean :: "string \<Rightarrow> bool" where
  "Boolean s = (s \<noteq> [])"

text \<open>
  \<open>State.valueFromString\<close>: a switch on the recorded kind. \<open>fresh\<close> is the
  identity the runtime gives to the symbol that \<open>Symbol(value)\<close> allocates. The
  default branch builds its message from \<open>typeof value\<close>, and \<open>value\<close> is the
  string.
\<close>

fun valueFromString ::
  "('n, 'o) host \<Rightarrow> nat \<Rightarrow> string \<Rightarrow> StorageValueType \<Rightarrow> error + ('n, 'o) StorageValue" where
  "valueFromString h fresh v TBigint = Inr (VNumber (Number h v))"
| "valueFromString h fresh v TBoolean = Inr (VBoolean (Boolean v))"
| "valueFromString h fresh v TSymbol = Inr (VSymbol fresh (Some v))"
| "valueFromString h fresh v TNumber = Inr (VNumber (parseFloat h v))"
| "valueFromString h fresh v TObject = JSON_parse h v"
| "valueFromString h fresh v TString = Inr (VString v)"
| "valueFromString h fresh v TUndefined = Inl (ValueTypeNotSupported TString)"
| "valueFromString h fresh v TFunction = Inl (ValueTypeNotSupported TString)"

declare natToString.simps [simp del]

subsection \<open>Configuration\<close>

text \<open>
  Every field of the two configuration interfaces is optional: \<open>None\<close> is a field
  that is absent. A flag is read by its truthiness, so an absent flag reads as false.
  \<open>onBeforeSet\<close> is a function or \<open>null\<close>; \<open>None\<close> stands for both
  \<open>null\<close> and absence, which the code does not tell apart. The hook is user code;
  it is taken to be a function of its argument that returns normally.
\<close>

record StateConfig =
  useChangeEvent :: "bool option"
  useLogs :: "bool option"
  prefix :: "string option"
  useRefetchOnFocus :: "bool option"

record ('n, 'o) StateElementConfig =
  useLocalStorage :: "bool option"
  useEvents :: "bool option"
  onBeforeSet :: "(('n, 'o) StorageValue \<Rightarrow> ('n, 'o) StorageValue) option"
  useRefetchOnFocus_el :: "bool option"

record ('n, 'o) StateElementOptions =
  defaultValue :: "('n, 'o) StorageValue"
  config :: "('n, 'o) StateElementConfig option"

definition truthy :: "bool option \<Rightarrow> bool" where
  "truthy b = (b = Some True)"

text \<open>One field of an object spread \<open>{...old, ...new}\<close>: the later object wins where it has the field.\<close>

definition spread_field :: "'a option \<Rightarrow> 'a option \<Rightarrow> 'a option" where
  "spread_field old new = (case new of None \<Rightarrow> old | Some x \<Rightarrow> Some x)"

definition default_StateConfig :: StateConfig where
  "default_StateConfig =
     \<lparr>useChangeEvent = Some False, useLogs = Some False, prefix = Some [],
      useRefetchOnFocus = Some True\<rparr>"

definition spread_StateConfig :: "StateConfig \<Rightarrow> StateConfig \<Rightarrow> StateConfig" where
  "spread_StateConfig old new =
     \<lparr>useChangeEvent = spread_field (useChangeEvent old) (useChangeEvent new),
      useLogs = spread_field (useLogs old) (useLogs new),
      prefix = spread_field (prefix old) (prefix new),
      useRefetchOnFocus = spread_field (useRefetchOnFocus old) (useRefetchOnFocus new)\<rparr>"

definition default_StateElementConfig :: "('n, 'o) StateElementConfig" where
  "default_StateElementConfig =
     \<lparr>useLocalStorage = Some False, useEvents = Some False, onBeforeSet = None,
      useRefetchOnFocus_el = Some True\<rparr>"

definition empty_StateElementConfig :: "('n, 'o) StateElementConfig" where
  "empty_StateElementConfig =
     \<lparr>useLocalStorage = None, useEvents = None, onBeforeSet = None,
      useRefetchOnFocus_el = None\<rparr>"

definition spread_StateElementConfig ::
  "('n, 'o) StateElementConfig \<Rightarrow> ('n, 'o) StateElementConfig \<Rightarrow> ('n, 'o) StateElementConfig" where
  "spread_StateElementConfig old new =
     \<lparr>useLocalStorage = spread_field (useLocalStorage old) (useLocalStorage new),
      useEvents = spread_field (useEvents old) (useEvents new),
      onBeforeSet = spread_field (onBeforeSet old) (onBeforeSet new),
      useRefetchOnFocus_el = spread_field (useRefetchOnFocus_el old) (useRefetchOnFocus_el new)\<rparr>"

subsection \<open>Elements, events and the registry\<close>

text \<open>
  A \<open>StateElement\<close>: its key and the three private fields \<open>_defaultValue\<close>,
  \<open>_type\<close> and \<open>_config\<close>. The element has no setter, so a copy of it stands for
  the object. Its \<open>state\<close> field is the registry the operations below are given.
\<close>

record ('n, 'o) StateElement =
  key :: string
  el_defaultValue :: "('n, 'o) StorageValue"
  el_type :: StorageValueType
  el_config :: "('n, 'o) StateElementConfig"

text \<open>
  The \<open>detail\<close> of a \<open>CustomEvent\<close>: the value for a per-key event, the object
  \<open>{key, value}\<close> for the aggregate event. An event has its type, a string, and its
  detail. Per-key events are typed by the key and the aggregate event is typed
  \<open>"change"\<close>: both live in one namespace.
\<close>

datatype ('n, 'o) detail =
    Detail "('n, 'o) StorageValue"
  | DetailKV string "('n, 'o) StorageValue"

datatype ('n, 'o) event = CustomEvent string "('n, 'o) detail"

fun event_type :: "('n, 'o) event \<Rightarrow> string" where
  "event_type (CustomEvent t d) = t"

text \<open>
  The two listeners the library registers, for the component with the given identity:
  \<open>ElementListener c k\<close> is what \<open>addListener\<close> installs around the callback
  \<open>(value) => this.$onStateChange(k, value)\<close>; \<open>ChangeListener c\<close> is the handler
  of the aggregate event, which calls
  \<open>this.$onStateChange(event.detail.key, event.detail.value)\<close>. Both test
  \<open>event instanceof CustomEvent\<close> and throw "Invalid event." otherwise; every event
  the library dispatches is a \<open>CustomEvent\<close>, so the throw is not reached.

  An overriding \<open>$onStateChange\<close> is user code. It is observed, not executed: each
  invocation is recorded with its arguments. \<open>OnStateChange c k d\<close> is a call on
  component \<open>c\<close> with first argument \<open>k\<close> and second argument the detail \<open>d\<close>;
  \<open>OnStateChangeProps c v\<close> is a call with the arguments \<open>(v.key, v.value)\<close> read
  off a value \<open>v\<close> that is not the aggregate event's object.
\<close>

datatype listener = ElementListener nat string | ChangeListener nat

datatype ('n, 'o) call =
    OnStateChange nat string "('n, 'o) detail"
  | OnStateChangeProps nat "('n, 'o) StorageValue"

fun invoke :: "listener \<Rightarrow> ('n, 'o) event \<Rightarrow> ('n, 'o) call" where
  "invoke (ElementListener c k) (CustomEvent t d) = OnStateChange c k d"
| "invoke (ChangeListener c) (CustomEvent t (DetailKV k v)) = OnStateChange c k (Detail v)"
| "invoke (ChangeListener c) (CustomEvent t (Detail v)) = OnStateChangeProps c v"

text \<open>
  The registry with the part of the browser it works on. \<open>storage\<close>,
  \<open>elements\<close> and \<open>st_config\<close> are the private fields \<open>_storage\<close>,
  \<open>_elements\<close> and \<open>_config\<close>; \<open>elements\<close> keeps the insertion order, which
  is the order a \<open>Map\<close> is iterated in. \<open>listeners\<close> is the listener list of
  the \<open>EventTarget\<close> the registry extends, each listener with the event type it was
  added for. \<open>localStorage\<close> is the browser's store, \<open>nextSymbol\<close> the identity of
  the next symbol to be allocated, \<open>nextComponent\<close> the identity of the next
  \<open>StateComponent\<close> object to be constructed, \<open>console_error\<close> what
  \<open>console.error\<close> has printed. \<open>dispatched\<close> and \<open>calls\<close> record every event given to
  \<open>dispatchEvent\<close> and every invocation of \<open>$onStateChange\<close>, in order.
\<close>

record ('n, 'o) State =
  storage :: "string \<rightharpoonup> ('n, 'o) StorageValue"
  elements :: "(string \<times> ('n, 'o) StateElement) list"
  st_config :: StateConfig
  listeners :: "(string \<times> listener) list"
  localStorage :: "string \<rightharpoonup> string"
  nextSymbol :: nat
  nextComponent :: nat
  console_error :: "error list"
  dispatched :: "('n, 'o) event list"
  calls :: "('n, 'o) call list"

text \<open>
  \<open>EventTarget.addEventListener\<close> and \<open>dispatchEvent\<close>. Every listener the
  library adds is a new closure, so none is dropped as a duplicate. An event is
  delivered to the listeners of its type in the order they were added.
\<close>

definition addEventListener ::
  "string \<Rightarrow> listener \<Rightarrow> ('n, 'o) State \<Rightarrow> ('n, 'o) State" where
  "addEventListener t l s = s\<lparr>listeners := listeners s @ [(t, l)]\<rparr>"

definition dispatchEvent :: "('n, 'o) event \<Rightarrow> ('n, 'o) State \<Rightarrow> ('n, 'o) State" where
  "dispatchEvent e s =
     s\<lparr>dispatched := dispatched s @ [e],
       calls := calls s @ map (\<lambda>tl. invoke (snd tl) e)
                  (filter (\<lambda>tl. fst tl = event_type e) (listeners s))\<rparr>"

subsection \<open>State\<close>

text \<open>\<open>State.prefixKey\<close>: the key itself when the prefix is falsy (absent or empty).\<close>

definition prefixKey :: "('n, 'o) State \<Rightarrow> string \<Rightarrow> string" where
  "prefixKey s k =
     (case prefix (st_config s) of
        None \<Rightarrow> k
      | Some p \<Rightarrow> if p = [] then k else p @ ''-'' @ k)"

text \<open>
  \<open>State.set\<close>. The in-memory write comes first; a throw of \<open>valueToString\<close>
  leaves it in place and skips the events.
\<close>

definition State_set ::
  "('n, 'o) host \<Rightarrow> string \<Rightarrow> ('n, 'o) StorageValue \<Rightarrow> ('n, 'o) StateElementConfig \<Rightarrow>
   ('n, 'o) State \<Rightarrow> error option \<times> ('n, 'o) State" where
  "State_set h k v cfg s =
     (let s1 = s\<lparr>storage := (storage s)(k \<mapsto> v)\<rparr> in
      case (if truthy (useLocalStorage cfg)
            then (case valueToString h v of
                    Inl e \<Rightarrow> Inl e
                  | Inr str \<Rightarrow> Inr (s1\<lparr>localStorage := (localStorage s1)(prefixKey s1 k \<mapsto> str)\<rparr>))
            else Inr s1) of
        Inl e \<Rightarrow> (Some e, s1)
      | Inr s2 \<Rightarrow>
          if truthy (useEvents cfg)
          then (let s3 = dispatchEvent (CustomEvent k (Detail v)) s2 in
                if truthy (useChangeEvent (st_config s3))
                then (None, dispatchEvent (CustomEvent ''change'' (DetailKV k v)) s3)
                else (None, s3))
          else (None, s2))"

text \<open>\<open>State.get\<close>: \<open>None\<close> is the \<open>undefined\<close> of a key with no entry.\<close>

definition State_get :: "('n, 'o) State \<Rightarrow> string \<Rightarrow> ('n, 'o) StorageValue option" where
  "State_get s k = storage s k"

text \<open>The constructor of \<open>StateElement\<close>.\<close>

definition StateElement_constructor ::
  "string \<Rightarrow> ('n, 'o) StateElementOptions \<Rightarrow> ('n, 'o) StateElement" where
  "StateElement_constructor k opts =
     \<lparr>key = k,
      el_defaultValue = defaultValue opts,
      el_type = typeof (defaultValue opts),
      el_config = (case config opts of
                     None \<Rightarrow> default_StateElementConfig
                   | Some c \<Rightarrow> spread_StateElementConfig default_StateElementConfig c)\<rparr>"

text \<open>
  \<open>State.init\<close>. \<open>opts.config?.useLocalStorage\<close> is read from the options as
  given, and the initial write uses \<open>{...opts.config, useEvents: false}\<close>. A persisted
  string is decoded with no handler around it.
\<close>

definition init ::
  "('n, 'o) host \<Rightarrow> string \<Rightarrow> ('n, 'o) StateElementOptions \<Rightarrow> ('n, 'o) State \<Rightarrow>
   (error + ('n, 'o) StateElement) \<times> ('n, 'o) State" where
  "init h k opts s =
     (if map_of (elements s) k \<noteq> None then (Inl ElementAlreadyInitialized, s)
      else let ty = typeof (defaultValue opts) in
        if ty = TFunction \<or> ty = TUndefined then (Inl (ValueTypeNotSupported ty), s)
        else let given = (case config opts of None \<Rightarrow> empty_StateElementConfig | Some c \<Rightarrow> c) in
          case (if truthy (useLocalStorage given)
                then (case localStorage s (prefixKey s k) of
                        None \<Rightarrow> Inr (defaultValue opts, s)
                      | Some localValue \<Rightarrow>
                          (case valueFromString h (nextSymbol s) localValue ty of
                             Inl e \<Rightarrow> Inl e
                           | Inr v \<Rightarrow> Inr (v, s\<lparr>nextSymbol := Suc (nextSymbol s)\<rparr>)))
                else Inr (defaultValue opts, s)) of
            Inl e \<Rightarrow> (Inl e, s)
          | Inr (v, s1) \<Rightarrow>
              (case State_set h k v (given\<lparr>useEvents := Some False\<rparr>) s1 of
                 (Some e, s2) \<Rightarrow> (Inl e, s2)
               | (None, s2) \<Rightarrow>
                   (let element = StateElement_constructor k opts in
                    (Inr element, s2\<lparr>elements := elements s2 @ [(k, element)]\<rparr>))))"

text \<open>\<open>State.attach\<close>.\<close>

definition attach ::
  "string \<Rightarrow> ('n, 'o) State \<Rightarrow> (error + ('n, 'o) StateElement) \<times> ('n, 'o) State" where
  "attach k s =
     (case map_of (elements s) k of
        None \<Rightarrow> (Inl ElementNotInitialized, s)
      | Some element \<Rightarrow> (Inr element, s))"

subsection \<open>StateElement\<close>

definition StateElement_get ::
  "('n, 'o) StateElement \<Rightarrow> ('n, 'o) State \<Rightarrow> ('n, 'o) StorageValue option" where
  "StateElement_get el s = State_get s (key el)"

text \<open>
  \<open>StateElement.set\<close>: the kind check, then the hook, then \<open>State.set\<close> with the
  element's own configuration. The value the hook returns is not checked again.
\<close>

definition StateElement_set ::
  "('n, 'o) host \<Rightarrow> ('n, 'o) StateElement \<Rightarrow> ('n, 'o) StorageValue \<Rightarrow> ('n, 'o) State \<Rightarrow>
   error option \<times> ('n, 'o) State" where
  "StateElement_set h el v s =
     (if typeof v \<noteq> el_type el then (Some (TypeMismatch (el_type el) (typeof v)), s)
      else let v' = (case onBeforeSet (el_config el) of None \<Rightarrow> v | Some f \<Rightarrow> f v) in
        State_set h (key el) v' (el_config el) s)"

definition reset ::
  "('n, 'o) host \<Rightarrow> ('n, 'o) StateElement \<Rightarrow> ('n, 'o) State \<Rightarrow> error option \<times> ('n, 'o) State" where
  "reset h el s = StateElement_set h el (el_defaultValue el) s"

text \<open>\<open>StateElement.addListener\<close>: the wrapper is added for the element's key.\<close>

definition addListener ::
  "('n, 'o) StateElement \<Rightarrow> listener \<Rightarrow> ('n, 'o) State \<Rightarrow> ('n, 'o) State" where
  "addListener el l s = addEventListener (key el) l s"

subsection \<open>The focus listener\<close>

text \<open>
  \<open>forEach\<close> runs a callback over a list and stops at the first throw, which it
  passes on. \<open>try_catch\<close> is \<open>try { body } catch (error) { handler }\<close>: the state
  the body reached is kept.
\<close>

fun forEach ::
  "('a \<Rightarrow> 's \<Rightarrow> error option \<times> 's) \<Rightarrow> 'a list \<Rightarrow> 's \<Rightarrow> error option \<times> 's" where
  "forEach f [] s = (None, s)"
| "forEach f (x # xs) s =
     (case f x s of
        (Some e, s') \<Rightarrow> (Some e, s')
      | (None, s') \<Rightarrow> forEach f xs s')"

definition try_catch ::
  "('s \<Rightarrow> error option \<times> 's) \<Rightarrow> (error \<Rightarrow> 's \<Rightarrow> error option \<times> 's) \<Rightarrow> 's \<Rightarrow> error option \<times> 's" where
  "try_catch body handler s =
     (case body s of
        (Some e, s') \<Rightarrow> handler e s'
      | (None, s') \<Rightarrow> (None, s'))"

definition console_error_log :: "error \<Rightarrow> ('n, 'o) State \<Rightarrow> error option \<times> ('n, 'o) State" where
  "console_error_log e s = (None, s\<lparr>console_error := console_error s @ [e]\<rparr>)"

text \<open>
  The body of the \<open>try\<close> block of the focus listener:
  \<open>element.set(this.valueFromString(localValue, element.type))\<close>.
\<close>

definition refetch_set ::
  "('n, 'o) host \<Rightarrow> ('n, 'o) StateElement \<Rightarrow> string \<Rightarrow> ('n, 'o) State \<Rightarrow>
   error option \<times> ('n, 'o) State" where
  "refetch_set h element localValue s =
     (case valueFromString h (nextSymbol s) localValue (el_type element) of
        Inl e \<Rightarrow> (Some e, s)
      | Inr v \<Rightarrow> StateElement_set h element v (s\<lparr>nextSymbol := Suc (nextSymbol s)\<rparr>))"

text \<open>The callback the focus listener runs on every entry \<open>(key, element)\<close> of \<open>_elements\<close>.\<close>

definition refetch ::
  "('n, 'o) host \<Rightarrow> string \<times> ('n, 'o) StateElement \<Rightarrow> ('n, 'o) State \<Rightarrow>
   error option \<times> ('n, 'o) State" where
  "refetch h entry s =
     (let k = fst entry; element = snd entry in
      if truthy (useLocalStorage (el_config element)) \<and>
         truthy (useRefetchOnFocus_el (el_config element))
      then (case localStorage s (prefixKey s k) of
              None \<Rightarrow> (None, s)
            | Some localValue \<Rightarrow> try_catch (refetch_set h element localValue) console_error_log s)
      else (None, s))"

text \<open>
  The window gains focus. The listener exists when \<open>useRefetchOnFocus\<close> was truthy
  in the constructor of \<open>State\<close>; the configuration is not written afterwards.
\<close>

definition window_focus ::
  "('n, 'o) host \<Rightarrow> ('n, 'o) State \<Rightarrow> error option \<times> ('n, 'o) State" where
  "window_focus h s =
     (if truthy (useRefetchOnFocus (st_config s))
      then forEach (refetch h) (elements s) s
      else (None, s))"

text \<open>
  The constructor of \<open>State\<close>, given the browser's store and symbol counter.
  \<open>initElements\<close> lists the entries of the record in the order of \<open>Object.keys\<close>.
\<close>

definition new_State ::
  "StateConfig option \<Rightarrow> (string \<rightharpoonup> string) \<Rightarrow> nat \<Rightarrow> ('n, 'o) State" where
  "new_State cfg store fresh =
     \<lparr>storage = Map.empty, elements = [],
      st_config = (case cfg of
                     None \<Rightarrow> default_StateConfig
                   | Some c \<Rightarrow> spread_StateConfig default_StateConfig c),
      listeners = [], localStorage = store, nextSymbol = fresh, nextComponent = 0,
      console_error = [],
      dispatched = [], calls = []\<rparr>"

definition State_constructor ::
  "('n, 'o) host \<Rightarrow> StateConfig option \<Rightarrow> (string \<times> ('n, 'o) StateElementOptions) list \<Rightarrow>
   (string \<rightharpoonup> string) \<Rightarrow> nat \<Rightarrow> error option \<times> ('n, 'o) State" where
  "State_constructor h cfg initElements store fresh =
     forEach (\<lambda>entry s. case init h (fst entry) (snd entry) s of
                           (Inl e, s') \<Rightarrow> (Some e, s')
                         | (Inr element, s') \<Rightarrow> (None, s'))
       initElements (new_State cfg store fresh)"

subsection \<open>StateComponent\<close>

text \<open>
  The constructor's second argument: absent, a boolean, or an array of keys.
  \<open>states\<close> is the frozen record of bound elements; \<open>assign\<close> is the write
  \<open>this.states[key] = element\<close>, which overwrites a key that is already there.
\<close>

datatype elements_arg = Absent | Flag bool | Keys "string list"

record ('n, 'o) StateComponent =
  identity :: nat
  states :: "(string \<times> ('n, 'o) StateElement) list"

fun assign :: "string \<Rightarrow> 'a \<Rightarrow> (string \<times> 'a) list \<Rightarrow> (string \<times> 'a) list" where
  "assign k v [] = [(k, v)]"
| "assign k v (p # ps) = (if fst p = k then (k, v) # ps else p # assign k v ps)"

text \<open>
  The loop of the first branch, over \<open>this.state.elements.values()\<close>; \<open>c\<close> is the
  identity of the component and \<open>overrides\<close> says whether its class has a
  \<open>$onStateChange\<close> of its own.
\<close>

fun bind_all ::
  "nat \<Rightarrow> bool \<Rightarrow> ('n, 'o) StateElement list \<Rightarrow> (string \<times> ('n, 'o) StateElement) list \<Rightarrow>
   ('n, 'o) State \<Rightarrow> (string \<times> ('n, 'o) StateElement) list \<times> ('n, 'o) State" where
  "bind_all c overrides [] sts s = (sts, s)"
| "bind_all c overrides (element # es) sts s =
     (let k = key element;
          sts' = assign k element sts;
          s' = (if overrides then addListener element (ElementListener c k) s else s)
      in bind_all c overrides es sts' s')"

text \<open>The loop of the second branch, over the given keys; \<open>attach\<close> may throw.\<close>

fun bind_keys ::
  "nat \<Rightarrow> bool \<Rightarrow> string list \<Rightarrow> (string \<times> ('n, 'o) StateElement) list \<Rightarrow>
   ('n, 'o) State \<Rightarrow> (error + (string \<times> ('n, 'o) StateElement) list) \<times> ('n, 'o) State" where
  "bind_keys c overrides [] sts s = (Inr sts, s)"
| "bind_keys c overrides (k # ks) sts s =
     (case attach k s of
        (Inl e, s1) \<Rightarrow> (Inl e, s1)
      | (Inr element, s1) \<Rightarrow>
          (let sts' = assign k element sts;
               s' = (if overrides then addListener element (ElementListener c k) s1 else s1)
           in bind_keys c overrides ks sts' s'))"

text \<open>
  The constructor of \<open>StateComponent\<close>. The new object takes the next identity.
  The test \<open>elements === true\<close> comes first; the second test is the truthiness of
  \<open>elements\<close>, and every array is truthy. A throw of \<open>attach\<close> ends the
  constructor with the listeners added so far still in place.
\<close>

definition StateComponent_constructor ::
  "bool \<Rightarrow> elements_arg \<Rightarrow> ('n, 'o) State \<Rightarrow>
   (error + ('n, 'o) StateComponent) \<times> ('n, 'o) State" where
  "StateComponent_constructor overrides arg s =
     (let c = nextComponent s; s0 = s\<lparr>nextComponent := Suc c\<rparr> in
      case arg of
        Flag True \<Rightarrow>
          (case bind_all c overrides (map snd (elements s0)) [] s0 of
             (sts, s') \<Rightarrow> (Inr \<lparr>identity = c, states = sts\<rparr>, s'))
      | Keys ks \<Rightarrow>
          (case bind_keys c overrides ks [] s0 of
             (Inl e, s') \<Rightarrow> (Inl e, s')
           | (Inr sts, s') \<Rightarrow> (Inr \<lparr>identity = c, states = sts\<rparr>, s'))
      | _ \<Rightarrow>
          if overrides
          then (Inr \<lparr>identity = c, states = []\<rparr>,
                addEventListener ''change'' (ChangeListener c) s0)
          else (Inr \<lparr>identity = c, states = []\<rparr>, s0))"

text \<open>\<open>$resetAll\<close>.\<close>

definition resetAll ::
  "('n, 'o) host \<Rightarrow> ('n, 'o) StateComponent \<Rightarrow> ('n, 'o) State \<Rightarrow> error option \<times> ('n, 'o) State" where
  "resetAll h component s = forEach (\<lambda>entry. reset h (snd entry)) (states component) s"

subsection \<open>Client programs\<close>

text \<open>
  A client is a sequence of calls of the public interface, together with the window
  gaining focus and with writes to the browser's store that come from elsewhere
  (another page of the same origin). Each call runs to its end or to its throw; the
  client goes on from the state the call left.
\<close>

datatype ('n, 'o) action =
    Init string "('n, 'o) StateElementOptions"
  | ElementSet "('n, 'o) StateElement" "('n, 'o) StorageValue"
  | ElementReset "('n, 'o) StateElement"
  | StateSet string "('n, 'o) StorageValue" "('n, 'o) StateElementConfig"
  | NewComponent bool elements_arg
  | ResetAll "('n, 'o) StateComponent"
  | WindowFocus
  | StorageWrite string string

fun perform :: "('n, 'o) host \<Rightarrow> ('n, 'o) action \<Rightarrow> ('n, 'o) State \<Rightarrow> ('n, 'o) State" where
  "perform h (Init k opts) s = snd (init h k opts s)"
| "perform h (ElementSet el v) s = snd (StateElement_set h el v s)"
| "perform h (ElementReset el) s = snd (reset h el s)"
| "perform h (StateSet k v cfg) s = snd (State_set h k v cfg s)"
| "perform h (NewComponent overrides arg) s = snd (StateComponent_constructor overrides arg s)"
| "perform h (ResetAll component) s = snd (resetAll h component s)"
| "perform h WindowFocus s = snd (window_focus h s)"
| "perform h (StorageWrite k str) s = s\<lparr>localStorage := (localStorage s)(k \<mapsto> str)\<rparr>"

definition run :: "('n, 'o) host \<Rightarrow> ('n, 'o) action list \<Rightarrow> ('n, 'o) State \<Rightarrow> ('n, 'o) State" where
  "run h acts s = foldl (\<lambda>s' a. perform h a s') s acts"

text \<open>
  The component a listener belongs to and the component a call was made on; the
  listeners of one component and the calls it has received.
\<close>

fun owner :: "listener \<Rightarrow> nat" where
  "owner (ElementListener c k) = c"
| "owner (ChangeListener c) = c"

fun receiver :: "('n, 'o) call \<Rightarrow> nat" where
  "receiver (OnStateChange c k d) = c"
| "receiver (OnStateChangeProps c v) = c"

definition listeners_of :: "nat \<Rightarrow> ('n, 'o) State \<Rightarrow> (string \<times> listener) list" where
  "listeners_of c s = filter (\<lambda>tl. owner (snd tl) = c) (listeners s)"

definition calls_of :: "nat \<Rightarrow> ('n, 'o) State \<Rightarrow> ('n, 'o) call list" where
  "calls_of c s = filter (\<lambda>x. receiver x = c) (calls s)"

text \<open>
  What holds of every registry a client can reach from a new one: the keys of
  \<open>elements\<close> are distinct, each element is filed under its own key, and every
  listener and every recorded call belongs to a component that has been constructed.
\<close>

definition well_formed :: "('n, 'o) State \<Rightarrow> bool" where
  "well_formed s =
     (distinct (map fst (elements s)) \<and>
      list_all (\<lambda>entry. key (snd entry) = fst entry) (elements s) \<and>
      list_all (\<lambda>tl. owner (snd tl) < nextComponent s) (listeners s) \<and>
      list_all (\<lambda>x. receiver x < nextComponent s) (calls s))"

text \<open>The value \<open>StateElement.set\<close> hands to \<open>State.set\<close>.\<close>

definition transformed :: "('n, 'o) StateElement \<Rightarrow> ('n, 'o) StorageValue \<Rightarrow> ('n, 'o) StorageValue" where
  "transformed el v = (case onBeforeSet (el_config el) of None \<Rightarrow> v | Some f \<Rightarrow> f v)"

text \<open>
  \<open>State.set\<close> persists the value when the slot asks for it; \<open>persistable\<close> says
  that this step does not throw.
\<close>

definition persistable ::
  "('n, 'o) host \<Rightarrow> ('n, 'o) StateElementConfig \<Rightarrow> ('n, 'o) StorageValue \<Rightarrow> bool" where
  "persistable h cfg v =
     (if truthy (useLocalStorage cfg)
      then (case valueToString h v of Inl e \<Rightarrow> False | Inr str \<Rightarrow> True)
      else True)"

subsection \<open>Persisting and reloading\<close>

text \<open>
  A value is persisted as \<open>valueToString\<close> of it and reloaded as \<open>valueFromString\<close>
  of that string under the kind of the value.
\<close>

definition roundtrip ::
  "('n, 'o) host \<Rightarrow> nat \<Rightarrow> ('n, 'o) StorageValue \<Rightarrow> error + ('n, 'o) StorageValue" where
  "roundtrip h fresh v =
     (case valueToString h v of
        Inl e \<Rightarrow> Inl e
      | Inr str \<Rightarrow> valueFromString h fresh str (typeof v))"

subsection \<open>Deliveries and frames\<close>

text \<open>
  \<open>delivered ls e\<close> are the calls that dispatching \<open>e\<close> makes on the listeners
  \<open>ls\<close>. \<open>quiet s s'\<close> holds of a step that registers nothing: elements, listeners,
  identities and configuration stay, and the calls made are calls on listeners of
  \<open>s\<close>. \<open>evolves s s'\<close> holds of every step: no component that exists in \<open>s\<close>
  gains or loses a listener, and one without listeners receives no call.
\<close>

definition delivered :: "(string \<times> listener) list \<Rightarrow> ('n, 'o) event \<Rightarrow> ('n, 'o) call list" where
  "delivered ls e = map (\<lambda>tl. invoke (snd tl) e) (filter (\<lambda>tl. fst tl = event_type e) ls)"

definition quiet :: "('n, 'o) State \<Rightarrow> ('n, 'o) State \<Rightarrow> bool" where
  "quiet s s' \<longleftrightarrow>
     elements s' = elements s \<and> listeners s' = listeners s \<and>
     nextComponent s' = nextComponent s \<and> st_config s' = st_config s \<and>
     (\<exists>xs. calls s' = calls s @ xs \<and>
           list_all (\<lambda>x. receiver x \<in> set (map (\<lambda>tl. owner (snd tl)) (listeners s))) xs)"

definition evolves :: "('n, 'o) State \<Rightarrow> ('n, 'o) State \<Rightarrow> bool" where
  "evolves s s' \<longleftrightarrow>
     nextComponent s \<le> nextComponent s' \<and> st_config s' = st_config s \<and>
     (\<forall>c < nextComponent s.
        listeners_of c s' = listeners_of c s \<and>
        (listeners_of c s = [] \<longrightarrow> calls_of c s' = calls_of c s))"

subsection \<open>The resynchronization pass, as specified\<close>

text \<open>
  What the pass is to do with one registered slot, written from its description: if the
  slot has both persistence and focus refetch enabled and a string is persisted under
  its prefixed key, the string is decoded under the slot's kind and the value is given
  to the slot's \<open>set\<close>; an error of either step is logged; nothing is thrown.
\<close>

definition resync ::
  "('n, 'o) host \<Rightarrow> string \<times> ('n, 'o) StateElement \<Rightarrow> ('n, 'o) State \<Rightarrow> ('n, 'o) State" where
  "resync h entry s =
     (if truthy (useLocalStorage (el_config (snd entry))) \<and>
         truthy (useRefetchOnFocus_el (el_config (snd entry)))
      then (case localStorage s (prefixKey s (fst entry)) of
              None \<Rightarrow> s
            | Some str \<Rightarrow>
                (case valueFromString h (nextSymbol s) str (el_type (snd entry)) of
                   Inl e \<Rightarrow> s\<lparr>console_error := console_error s @ [e]\<rparr>
                 | Inr v \<Rightarrow>
                     (case StateElement_set h (snd entry) v (s\<lparr>nextSymbol := Suc (nextSymbol s)\<rparr>) of
                        (None, s') \<Rightarrow> s'
                      | (Some e, s') \<Rightarrow> s'\<lparr>console_error := console_error s' @ [e]\<rparr>)))
      else s)"

text \<open>
  \<open>refetches\<close> says that a slot takes part in the pass. \<open>settled h k el str s'\<close>
  describes the registry \<open>s'\<close> after the slot \<open>el\<close>, filed under \<open>k\<close>, has been
  resynchronized from the persisted string \<open>str\<close>: a decoding error is in the log; a
  decoded value of another kind than the slot's has left the mismatch error in the log;
  a decoded value of the slot's kind, as the hook transforms it, is the stored value.
  A decoded symbol is new, so its identity is not fixed beforehand.
\<close>

definition refetches :: "('n, 'o) StateElement \<Rightarrow> bool" where
  "refetches el \<longleftrightarrow>
     truthy (useLocalStorage (el_config el)) \<and> truthy (useRefetchOnFocus_el (el_config el))"

definition settled ::
  "('n, 'o) host \<Rightarrow> string \<Rightarrow> ('n, 'o) StateElement \<Rightarrow> string \<Rightarrow> ('n, 'o) State \<Rightarrow> bool" where
  "settled h k el str s' \<longleftrightarrow>
     (\<forall>n e. valueFromString h n str (el_type el) = Inl e \<longrightarrow> e \<in> set (console_error s')) \<and>
     (\<forall>n v. valueFromString h n str (el_type el) = Inr v \<and> typeof v \<noteq> el_type el \<longrightarrow>
        TypeMismatch (el_type el) (typeof v) \<in> set (console_error s')) \<and>
     (\<forall>n v. valueFromString h n str (el_type el) = Inr v \<and> typeof v = el_type el \<and>
        el_type el \<noteq> TSymbol \<longrightarrow> storage s' k = Some (transformed el v)) \<and>
     (el_type el = TSymbol \<longrightarrow> (\<exists>m. storage s' k = Some (transformed el (VSymbol m (Some str)))))"

subsection \<open>An example host\<close>

text \<open>
  A small host for closed examples. Its numbers are the integers and \<open>NaN\<close>; its
  objects are \<open>null\<close>, the empty object \<open>{}\<close> and an object with a property that
  refers to the object itself. \<open>JSON.stringify\<close> throws a \<open>TypeError\<close> on the
  last. The parsers read decimal integer literals; \<open>JSON.parse\<close> also reads
  \<open>null\<close>, \<open>{}\<close>, \<open>true\<close> and \<open>false\<close>, and throws a \<open>SyntaxError\<close> on any
  other string.
\<close>

datatype demo_number = NaN | Integer int

datatype demo_object = Null | EmptyObject | Cyclic

definition digitValue :: "char \<Rightarrow> nat option" where
  "digitValue c = map_of (zip ''0123456789'' [0, 1, 2, 3, 4, 5, 6, 7, 8, 9]) c"

fun natFromString :: "string \<Rightarrow> nat \<Rightarrow> nat option" where
  "natFromString [] acc = Some acc"
| "natFromString (c # cs) acc =
     (case digitValue c of
        None \<Rightarrow> None
      | Some d \<Rightarrow> natFromString cs (10 * acc + d))"

definition intFromString :: "string \<Rightarrow> int option" where
  "intFromString str =
     (case str of
        [] \<Rightarrow> None
      | c # cs \<Rightarrow>
          if c = CHR ''-''
          then (if cs = [] then None else map_option (\<lambda>n. - int n) (natFromString cs 0))
          else map_option int (natFromString str 0))"

definition demo_numberToString :: "demo_number \<Rightarrow> string" where
  "demo_numberToString x = (case x of NaN \<Rightarrow> ''NaN'' | Integer i \<Rightarrow> bigintToString i)"

definition demo_parse :: "string \<Rightarrow> demo_number" where
  "demo_parse str = (case intFromString str of None \<Rightarrow> NaN | Some i \<Rightarrow> Integer i)"

definition demo_Number :: "string \<Rightarrow> demo_number" where
  "demo_Number str = (if str = [] then Integer 0 else demo_parse str)"

definition demo_stringify :: "demo_object \<Rightarrow> error + string" where
  "demo_stringify ob =
     (case ob of
        Null \<Rightarrow> Inr ''null''
      | EmptyObject \<Rightarrow> Inr ''{}''
      | Cyclic \<Rightarrow> Inl (HostError ''TypeError: Converting circular structure to JSON''))"

definition demo_JSON_parse :: "string \<Rightarrow> error + (demo_number, demo_object) StorageValue" where
  "demo_JSON_parse str =
     (if str = ''null'' then Inr (VObject Null)
      else if str = ''{}'' then Inr (VObject EmptyObject)
      else if str = ''true'' then Inr (VBoolean True)
      else if str = ''false'' then Inr (VBoolean False)
      else (case intFromString str of
              Some i \<Rightarrow> Inr (VNumber (Integer i))
            | None \<Rightarrow> Inl (HostError ''SyntaxError'')))"

definition demo_host :: "(demo_number, demo_object) host" where
  "demo_host =
     \<lparr>numberToString = demo_numberToString, Number = demo_Number, parseFloat = demo_parse,
      JSON_stringify = demo_stringify, JSON_parse = demo_JSON_parse\<rparr>"

subsection \<open>Example registries\<close>

text \<open>Registries, options and elements for the closed examples.\<close>

definition empty_registry :: "(demo_number, demo_object) State" where
  "empty_registry = new_State None Map.empty 0"

definition test_options :: "(demo_number, demo_object) StateElementOptions" where
  "test_options = \<lparr>defaultValue = VNumber (Integer 123), config = None\<rparr>"

definition test_registry :: "(demo_number, demo_object) State" where
  "test_registry = snd (init demo_host ''test'' test_options empty_registry)"

definition persistent_object_options :: "(demo_number, demo_object) StateElementOptions" where
  "persistent_object_options =
     \<lparr>defaultValue = VObject EmptyObject,
      config = Some (empty_StateElementConfig\<lparr>useLocalStorage := Some True\<rparr>)\<rparr>"


definition increment :: "(demo_number, demo_object) StorageValue \<Rightarrow> (demo_number, demo_object) StorageValue" where
  "increment v = (case v of VBigint i \<Rightarrow> VBigint (i + 1) | _ \<Rightarrow> v)"

definition counter_options :: "(demo_number, demo_object) StateElementOptions" where
  "counter_options =
     \<lparr>defaultValue = VBigint 0,
      config = Some (empty_StateElementConfig\<lparr>onBeforeSet := Some increment\<rparr>)\<rparr>"

definition counter_element :: "(demo_number, demo_object) StateElement" where
  "counter_element = StateElement_constructor ''n'' counter_options"

definition persist_config :: "(demo_number, demo_object) StateElementConfig" where
  "persist_config = empty_StateElementConfig\<lparr>useLocalStorage := Some True\<rparr>"

definition count_options :: "(demo_number, demo_object) StateElementOptions" where
  "count_options = \<lparr>defaultValue = VBigint 5, config = Some persist_config\<rparr>"

definition clicks_options :: "(demo_number, demo_object) StateElementOptions" where
  "clicks_options = \<lparr>defaultValue = VNumber (Integer 0), config = Some persist_config\<rparr>"

definition stored_registry :: "string \<Rightarrow> string \<Rightarrow> (demo_number, demo_object) State" where
  "stored_registry k str = new_State None [k \<mapsto> str] 0"

definition app_config :: StateConfig where
  "app_config =
     \<lparr>useChangeEvent = None, useLogs = None, prefix = Some ''app'', useRefetchOnFocus = None\<rparr>"

definition app_registry :: "(demo_number, demo_object) State" where
  "app_registry = new_State (Some app_config) Map.empty 0"

definition app_saved :: "(demo_number, demo_object) State" where
  "app_saved = snd (State_set demo_host ''k'' (VString ''x'') persist_config app_registry)"

definition k_options :: "(demo_number, demo_object) StateElementOptions" where
  "k_options = \<lparr>defaultValue = VString ''d'', config = Some persist_config\<rparr>"

definition change_config :: StateConfig where
  "change_config =
     \<lparr>useChangeEvent = Some True, useLogs = None, prefix = None, useRefetchOnFocus = None\<rparr>"

definition events_options :: "(demo_number, demo_object) StateElementOptions" where
  "events_options =
     \<lparr>defaultValue = VNumber (Integer 123),
      config = Some (empty_StateElementConfig\<lparr>useEvents := Some True\<rparr>)\<rparr>"

definition events_element :: "(demo_number, demo_object) StateElement" where
  "events_element = StateElement_constructor ''test'' events_options"

definition events_registry :: "(demo_number, demo_object) State" where
  "events_registry =
     run demo_host [Init ''test'' events_options] (new_State (Some change_config) Map.empty 0)"

definition symbol_options :: "(demo_number, demo_object) StateElementOptions" where
  "symbol_options = \<lparr>defaultValue = VSymbol 0 (Some ''tag''), config = Some persist_config\<rparr>"

definition focus_history :: "(demo_number, demo_object) action list" where
  "focus_history =
     [Init ''o'' persistent_object_options, Init ''clicks'' clicks_options,
      Init ''count'' count_options, Init ''sym'' symbol_options,
      StorageWrite ''o'' ''{'', StorageWrite ''clicks'' ''7'',
      StorageWrite ''count'' ''5'', StorageWrite ''sym'' ''tag'']"

definition focus_registry :: "(demo_number, demo_object) State" where
  "focus_registry = run demo_host focus_history (new_State None Map.empty 0)"

section \<open>Properties\<close>

subsection \<open>What each operation leaves alone\<close>

lemma receiver_invoke: "receiver (invoke l e) = owner l"
  by (cases "(l, e)" rule: invoke.cases) auto

lemma dispatchEvent_fields:
  "listeners (dispatchEvent e s) = listeners s"
  "elements (dispatchEvent e s) = elements s"
  "st_config (dispatchEvent e s) = st_config s"
  "nextComponent (dispatchEvent e s) = nextComponent s"
  "nextSymbol (dispatchEvent e s) = nextSymbol s"
  "console_error (dispatchEvent e s) = console_error s"
  "storage (dispatchEvent e s) = storage s"
  "localStorage (dispatchEvent e s) = localStorage s"
  by (simp_all add: dispatchEvent_def)

lemma State_set_fields:
  "listeners (snd (State_set h k v cfg s)) = listeners s"
  "elements (snd (State_set h k v cfg s)) = elements s"
  "st_config (snd (State_set h k v cfg s)) = st_config s"
  "nextComponent (snd (State_set h k v cfg s)) = nextComponent s"
  "nextSymbol (snd (State_set h k v cfg s)) = nextSymbol s"
  "console_error (snd (State_set h k v cfg s)) = console_error s"
  by (simp_all add: State_set_def Let_def dispatchEvent_fields split: sum.splits)

lemma State_set_storage:
  "storage (snd (State_set h k v cfg s)) = (storage s)(k \<mapsto> v)"
  by (simp add: State_set_def Let_def dispatchEvent_fields split: sum.splits)

lemma State_set_error:
  "fst (State_set h k v cfg s) = None \<longleftrightarrow> persistable h cfg v"
  by (simp add: State_set_def Let_def persistable_def split: sum.splits)

lemma State_set_localStorage:
  "localStorage (snd (State_set h k v cfg s)) =
     (if truthy (useLocalStorage cfg)
      then (case valueToString h v of
              Inl e \<Rightarrow> localStorage s
            | Inr str \<Rightarrow> (localStorage s)(prefixKey s k \<mapsto> str))
      else localStorage s)"
  by (simp add: State_set_def Let_def dispatchEvent_fields prefixKey_def split: sum.splits)

lemma State_set_dispatched:
  "dispatched (snd (State_set h k v cfg s)) =
     dispatched s @
       (if persistable h cfg v \<and> truthy (useEvents cfg)
        then CustomEvent k (Detail v) #
               (if truthy (useChangeEvent (st_config s))
                then [CustomEvent ''change'' (DetailKV k v)] else [])
        else [])"
  by (simp add: State_set_def Let_def persistable_def dispatchEvent_def split: sum.splits)


lemma StateElement_set_mismatch:
  "typeof v \<noteq> el_type el \<Longrightarrow>
   StateElement_set h el v s = (Some (TypeMismatch (el_type el) (typeof v)), s)"
  by (simp add: StateElement_set_def)

lemma StateElement_set_match:
  "typeof v = el_type el \<Longrightarrow>
   StateElement_set h el v s = State_set h (key el) (transformed el v) (el_config el) s"
  by (simp add: StateElement_set_def transformed_def)

lemma StateElement_set_get:
  "typeof v = el_type el \<Longrightarrow>
   StateElement_get el (snd (StateElement_set h el v s)) = Some (transformed el v)"
  by (simp add: StateElement_set_match StateElement_get_def State_get_def State_set_storage)

lemma init_Inr:
  assumes "init h k opts s = (Inr el, s')"
  shows "el = StateElement_constructor k opts"
  using assms
  by (auto simp add: init_def Let_def split: if_splits sum.splits option.splits prod.splits)

lemma elements_test_registry:
  "elements test_registry = [(''test'', StateElement_constructor ''test'' test_options)]"
  by (simp add: test_registry_def empty_registry_def new_State_def init_def test_options_def
      Let_def empty_StateElementConfig_def truthy_def State_set_def)

subsection \<open>The codec\<close>

text \<open>
  A string comes back as it was, and so does \<open>true\<close>. A big integer comes back as a
  number, and a symbol as a new symbol whose description is the printed form of the
  old one, which is never the old description. What a number or an object comes back
  as is up to the host: \<open>parseFloat\<close> of \<open>toString\<close>, and \<open>JSON.parse\<close> of
  \<open>JSON.stringify\<close>.
\<close>

lemma roundtrip_string: "roundtrip h fresh (VString x) = Inr (VString x)"
  by (simp add: roundtrip_def)

lemma roundtrip_true: "roundtrip h fresh (VBoolean True) = Inr (VBoolean True)"
  by (simp add: roundtrip_def booleanToString_def Boolean_def)

lemma roundtrip_bigint:
  "roundtrip h fresh (VBigint i) = Inr (VNumber (Number h (bigintToString i)))"
  by (simp add: roundtrip_def)

lemma roundtrip_symbol:
  "roundtrip h fresh (VSymbol n d) = Inr (VSymbol fresh (Some (symbolToString d)))"
  by (simp add: roundtrip_def)

lemma roundtrip_number:
  "roundtrip h fresh (VNumber x) = Inr (VNumber (parseFloat h (numberToString h x)))"
  by (simp add: roundtrip_def)

lemma roundtrip_object:
  "roundtrip h fresh (VObject ob) =
     (case JSON_stringify h ob of Inl e \<Rightarrow> Inl e | Inr str \<Rightarrow> JSON_parse h str)"
  by (simp add: roundtrip_def split: sum.splits)

lemma symbolToString_neq: "Some (symbolToString d) \<noteq> d"
  by (cases d) (auto simp: symbolToString_def dest: arg_cong[where f=length])

text \<open>
  Claim C1. A boolean persisted and reloaded under its kind should come back equal. The
  value \<open>false\<close> is printed as \<open>"false"\<close>, and \<open>Boolean("false")\<close> is \<open>true\<close>:
  \<open>false\<close> comes back as \<open>true\<close>.
\<close>

theorem roundtrip_false_yields_true:
  "roundtrip h fresh (VBoolean False) = Inr (VBoolean True)"
  by (simp add: roundtrip_def booleanToString_def Boolean_def)

subsection \<open>StateElement.set\<close>




subsection \<open>Registering and attaching\<close>

text \<open>
  Claim C8. \<open>init\<close> on a key that is registered throws "Element already initialized",
  \<open>attach\<close> on a key that is not registered throws "Element not initialized", and
  either call leaves the registry, and so its element map, as it was.
\<close>

theorem init_duplicate_attach_unknown:
  "(map_of (elements s) k \<noteq> None \<longrightarrow> init h k opts s = (Inl ElementAlreadyInitialized, s)) \<and>
   (map_of (elements s) k = None \<longrightarrow> attach k s = (Inl ElementNotInitialized, s))"
  by (simp add: init_def attach_def)

theorem init_duplicate_attach_unknown_witness:
  "map_of (elements test_registry) ''test'' \<noteq> None \<and>
   init demo_host ''test'' test_options test_registry =
     (Inl ElementAlreadyInitialized, test_registry) \<and>
   map_of (elements test_registry) ''other'' = None \<and>
   attach ''other'' test_registry = (Inl ElementNotInitialized, test_registry)"
  using init_duplicate_attach_unknown [of test_registry "''test''" demo_host test_options]
    init_duplicate_attach_unknown [of test_registry "''other''" demo_host test_options]
  by (simp add: elements_test_registry)

subsection \<open>Reset\<close>

lemmas example_defs =
  empty_registry_def new_State_def default_StateConfig_def spread_StateConfig_def
  StateElement_constructor_def spread_StateElementConfig_def default_StateElementConfig_def
  empty_StateElementConfig_def spread_field_def truthy_def demo_host_def

text \<open>
  Claim C3, amended. Take the element that \<open>init\<close> returned and let the client do
  anything afterwards, sets of this element among it. After \<open>reset\<close>, \<open>get\<close>
  returns the default value as the \<open>onBeforeSet\<close> hook transforms it; with no hook
  it returns the default value supplied at \<open>init\<close>.
\<close>

theorem reset_restores_default:
  assumes "init h k opts s0 = (Inr el, s1)"
  shows "StateElement_get el (snd (reset h el (run h acts s1))) =
           Some (transformed el (defaultValue opts)) \<and>
         (onBeforeSet (el_config el) = None \<longrightarrow>
            StateElement_get el (snd (reset h el (run h acts s1))) = Some (defaultValue opts))"
proof -
  have el: "el = StateElement_constructor k opts"
    using assms by (rule init_Inr)
  have ty: "typeof (el_defaultValue el) = el_type el" "el_defaultValue el = defaultValue opts"
    by (simp_all add: el StateElement_constructor_def)
  have "StateElement_get el (snd (reset h el (run h acts s1))) =
          Some (transformed el (defaultValue opts))"
    unfolding reset_def using StateElement_set_get [OF ty(1)] by (simp add: ty(2))
  then show ?thesis
    by (auto simp add: transformed_def)
qed

theorem reset_restores_default_witness:
  "init demo_host ''test'' test_options empty_registry =
     (Inr (StateElement_constructor ''test'' test_options), test_registry) \<and>
   onBeforeSet (el_config (StateElement_constructor ''test'' test_options)) = None \<and>
   StateElement_get (StateElement_constructor ''test'' test_options)
     (snd (reset demo_host (StateElement_constructor ''test'' test_options)
        (run demo_host
           [ElementSet (StateElement_constructor ''test'' test_options) (VNumber (Integer 456))]
           test_registry))) = Some (VNumber (Integer 123))"
proof -
  have i: "init demo_host ''test'' test_options empty_registry =
     (Inr (StateElement_constructor ''test'' test_options), test_registry)"
    by (simp add: test_registry_def test_options_def init_def Let_def empty_registry_def
        new_State_def empty_StateElementConfig_def truthy_def State_set_def)
  have h: "onBeforeSet (el_config (StateElement_constructor ''test'' test_options)) = None"
    by (simp add: StateElement_constructor_def test_options_def default_StateElementConfig_def)
  show ?thesis
    using reset_restores_default [OF i, of "[ElementSet (StateElement_constructor ''test'' test_options)
        (VNumber (Integer 456))]"] i h
    by (simp add: test_options_def transformed_def)
qed

text \<open>
  With a hook that adds one to a big integer and the default \<open>0n\<close>, \<open>get\<close> returns
  \<open>1n\<close> after \<open>reset\<close>.
\<close>

theorem reset_with_hook_changes_default:
  "fst (init demo_host ''n'' counter_options empty_registry) = Inr counter_element \<and>
   defaultValue counter_options = VBigint 0 \<and>
   StateElement_get counter_element
     (snd (reset demo_host counter_element
        (snd (init demo_host ''n'' counter_options empty_registry)))) = Some (VBigint 1)"
  by (simp add: counter_element_def counter_options_def example_defs init_def Let_def
      State_set_def reset_def StateElement_set_def StateElement_get_def State_get_def increment_def)

subsection \<open>Events of State.set\<close>

text \<open>
  Claim C5, amended. \<open>State.set\<close> always writes the value in memory first. If the slot
  persists and \<open>valueToString\<close> throws, \<open>State.set\<close> throws that error, with the
  in-memory write in place and no event dispatched; otherwise it returns normally. It
  dispatches events exactly when \<open>useEvents\<close> is truthy and the persistence step has
  not thrown (the slot does not persist, or \<open>valueToString\<close> returns): then the per-key
  event with the new value comes first and, if and only if \<open>useChangeEvent\<close> is set,
  the aggregate \<open>"change"\<close> event with \<open>{key, value}\<close> follows. Otherwise nothing is
  dispatched.
\<close>

theorem State_set_dispatch_order:
  "storage (snd (State_set h k v cfg s)) = (storage s)(k \<mapsto> v) \<and>
   fst (State_set h k v cfg s) =
     (if truthy (useLocalStorage cfg)
      then (case valueToString h v of Inl e \<Rightarrow> Some e | Inr str \<Rightarrow> None)
      else None) \<and>
   (fst (State_set h k v cfg s) = None) = persistable h cfg v \<and>
   dispatched (snd (State_set h k v cfg s)) =
     dispatched s @
       (if truthy (useEvents cfg) \<and> persistable h cfg v
        then CustomEvent k (Detail v) #
               (if truthy (useChangeEvent (st_config s))
                then [CustomEvent ''change'' (DetailKV k v)] else [])
        else [])"
proof -
  have "fst (State_set h k v cfg s) =
     (if truthy (useLocalStorage cfg)
      then (case valueToString h v of Inl e \<Rightarrow> Some e | Inr str \<Rightarrow> None)
      else None)"
    by (simp add: State_set_def Let_def split: sum.splits)
  moreover have "(fst (State_set h k v cfg s) = None) = persistable h cfg v"
    by (rule State_set_error)
  moreover have "storage (snd (State_set h k v cfg s)) = (storage s)(k \<mapsto> v)"
    by (rule State_set_storage)
  moreover have "dispatched (snd (State_set h k v cfg s)) =
     dispatched s @
       (if truthy (useEvents cfg) \<and> persistable h cfg v
        then CustomEvent k (Detail v) #
               (if truthy (useChangeEvent (st_config s))
                then [CustomEvent ''change'' (DetailKV k v)] else [])
        else [])"
    by (simp add: State_set_dispatched)
  ultimately show ?thesis
    by blast
qed

text \<open>
  With \<open>useEvents\<close> and \<open>useLocalStorage\<close> both set and a function as the value,
  \<open>valueToString\<close> throws after the in-memory write and no event is dispatched. The
  same happens with an object that \<open>JSON.stringify\<close> throws on.
\<close>

theorem State_set_function_value_no_event:
  "truthy (useEvents (persist_config\<lparr>useEvents := Some True\<rparr>)) \<and>
   State_set demo_host ''k'' (VFunction 0) (persist_config\<lparr>useEvents := Some True\<rparr>)
     empty_registry =
   (Some (ValueTypeNotSupported TFunction), empty_registry\<lparr>storage := [''k'' \<mapsto> VFunction 0]\<rparr>) \<and>
   dispatched (empty_registry\<lparr>storage := [''k'' \<mapsto> VFunction 0]\<rparr>) = [] \<and>
   State_set demo_host ''k'' (VObject Cyclic) (persist_config\<lparr>useEvents := Some True\<rparr>)
     empty_registry =
   (Some (HostError ''TypeError: Converting circular structure to JSON''),
    empty_registry\<lparr>storage := [''k'' \<mapsto> VObject Cyclic]\<rparr>) \<and>
   dispatched (empty_registry\<lparr>storage := [''k'' \<mapsto> VObject Cyclic]\<rparr>) = []"
  by (simp add: example_defs persist_config_def State_set_def demo_stringify_def)

subsection \<open>Loading a persisted value in init\<close>

lemma init_fresh:
  assumes "map_of (elements s) k = None"
    and "typeof (defaultValue opts) \<notin> {TFunction, TUndefined}"
    and "config opts = Some cfg" and "truthy (useLocalStorage cfg)"
    and "localStorage s (prefixKey s k) = Some lv"
  shows "init h k opts s =
     (case valueFromString h (nextSymbol s) lv (typeof (defaultValue opts)) of
        Inl e \<Rightarrow> (Inl e, s)
      | Inr v \<Rightarrow>
          (case State_set h k v (cfg\<lparr>useEvents := Some False\<rparr>) (s\<lparr>nextSymbol := Suc (nextSymbol s)\<rparr>) of
             (Some e, s2) \<Rightarrow> (Inl e, s2)
           | (None, s2) \<Rightarrow>
               (Inr (StateElement_constructor k opts),
                s2\<lparr>elements := elements s2 @ [(k, StateElement_constructor k opts)]\<rparr>)))"
  using assms by (simp add: init_def Let_def split: sum.splits prod.splits option.splits)

lemma init_unpersisted:
  assumes "map_of (elements s) k = None"
    and "typeof (defaultValue opts) \<notin> {TFunction, TUndefined}"
    and "config opts = Some cfg" and "truthy (useLocalStorage cfg)"
    and "localStorage s (prefixKey s k) = None"
  shows "init h k opts s =
     (case State_set h k (defaultValue opts) (cfg\<lparr>useEvents := Some False\<rparr>) s of
        (Some e, s2) \<Rightarrow> (Inl e, s2)
      | (None, s2) \<Rightarrow>
          (Inr (StateElement_constructor k opts),
           s2\<lparr>elements := elements s2 @ [(k, StateElement_constructor k opts)]\<rparr>))"
  using assms by (simp add: init_def Let_def split: sum.splits prod.splits option.splits)

lemma init_load:
  assumes "map_of (elements s) k = None"
    and "typeof (defaultValue opts) \<notin> {TFunction, TUndefined}"
    and "config opts = Some cfg" and "truthy (useLocalStorage cfg)"
  shows "State_get (snd (init h k opts s)) k =
     (case localStorage s (prefixKey s k) of
        None \<Rightarrow> Some (defaultValue opts)
      | Some lv \<Rightarrow>
          (case valueFromString h (nextSymbol s) lv (typeof (defaultValue opts)) of
             Inl e \<Rightarrow> State_get s k
           | Inr v \<Rightarrow> Some v))"
proof (cases "localStorage s (prefixKey s k)")
  case None
  let ?r = "State_set h k (defaultValue opts) (cfg\<lparr>useEvents := Some False\<rparr>) s"
  have "storage (snd ?r) = (storage s)(k \<mapsto> defaultValue opts)"
    by (rule State_set_storage)
  then show ?thesis
    using None
    by (cases ?r) (auto simp add: init_unpersisted [OF assms None] State_get_def split: option.splits)
next
  case (Some lv)
  show ?thesis
  proof (cases "valueFromString h (nextSymbol s) lv (typeof (defaultValue opts))")
    case (Inl e)
    then show ?thesis
      using Some by (simp add: init_fresh [OF assms Some])
  next
    case (Inr v)
    let ?r = "State_set h k v (cfg\<lparr>useEvents := Some False\<rparr>) (s\<lparr>nextSymbol := Suc (nextSymbol s)\<rparr>)"
    have "storage (snd ?r) = (storage (s\<lparr>nextSymbol := Suc (nextSymbol s)\<rparr>))(k \<mapsto> v)"
      by (rule State_set_storage)
    then show ?thesis
      using Some Inr
      by (cases ?r) (auto simp add: init_fresh [OF assms Some] State_get_def split: option.splits)
  qed
qed

lemma valueFromString_kind:
  assumes "valueFromString h fresh lv ty = Inr v"
  shows "(ty \<in> {TBoolean, TSymbol, TNumber, TString} \<longrightarrow> typeof v = ty) \<and>
         (ty = TBigint \<longrightarrow> typeof v = TNumber)"
  using assms by (cases ty) auto

lemma persistable_useEvents: "persistable h (cfg\<lparr>useEvents := b\<rparr>) v = persistable h cfg v"
  by (simp add: persistable_def)

lemmas demo_parse_defs =
  demo_Number_def demo_parse_def intFromString_def digitValue_def demo_JSON_parse_def
  demo_stringify_def demo_numberToString_def

lemma stored_registry_simps:
  "elements (stored_registry k str) = []"
  "nextSymbol (stored_registry k str) = 0"
  "prefixKey (stored_registry k str) k' = k'"
  "localStorage (stored_registry k str) = [k \<mapsto> str]"
  by (simp_all add: stored_registry_def new_State_def default_StateConfig_def prefixKey_def)

lemma persist_config_truthy: "truthy (useLocalStorage persist_config)"
  by (simp add: persist_config_def truthy_def)

text \<open>
  Claim C6, amended. Let \<open>init\<close> be called on a new key with a default of a
  supported kind, persistence requested and a string persisted under the prefixed key.
  If \<open>valueFromString\<close> decodes the string under the kind of the default, the decoded
  value, not the default, is stored as the initial value; it has the recorded kind for
  the kinds boolean, symbol, number and string, and it is a number for the kind bigint
  (for the kind object it is whatever \<open>JSON.parse\<close> returns). The element is
  registered exactly when writing the decoded value back does not throw. If decoding
  throws, \<open>init\<close> throws that error and the registry is unchanged.
\<close>

theorem init_loads_persisted:
  assumes "map_of (elements s) k = None"
    and "typeof (defaultValue opts) \<notin> {TFunction, TUndefined}"
    and "config opts = Some cfg" and "truthy (useLocalStorage cfg)"
    and "localStorage s (prefixKey s k) = Some lv"
  shows "(valueFromString h (nextSymbol s) lv (typeof (defaultValue opts)) = Inr v \<longrightarrow>
            State_get (snd (init h k opts s)) k = Some v \<and>
            (typeof (defaultValue opts) \<in> {TBoolean, TSymbol, TNumber, TString} \<longrightarrow>
               typeof v = typeof (defaultValue opts)) \<and>
            (typeof (defaultValue opts) = TBigint \<longrightarrow> typeof v = TNumber) \<and>
            (fst (init h k opts s) = Inr (StateElement_constructor k opts) \<longleftrightarrow>
               persistable h cfg v)) \<and>
         (valueFromString h (nextSymbol s) lv (typeof (defaultValue opts)) = Inl e \<longrightarrow>
            init h k opts s = (Inl e, s))"
proof (intro conjI impI)
  assume dec: "valueFromString h (nextSymbol s) lv (typeof (defaultValue opts)) = Inr v"
  let ?s1 = "s\<lparr>nextSymbol := Suc (nextSymbol s)\<rparr>"
  let ?r = "State_set h k v (cfg\<lparr>useEvents := Some False\<rparr>) ?s1"
  have i: "init h k opts s =
     (case ?r of
        (Some e, s2) \<Rightarrow> (Inl e, s2)
      | (None, s2) \<Rightarrow>
          (Inr (StateElement_constructor k opts),
           s2\<lparr>elements := elements s2 @ [(k, StateElement_constructor k opts)]\<rparr>))"
    using init_fresh [OF assms, of h] dec by simp
  have st: "storage (snd ?r) = (storage ?s1)(k \<mapsto> v)"
    by (rule State_set_storage)
  have er: "fst ?r = None \<longleftrightarrow> persistable h cfg v"
    by (simp add: State_set_error persistable_useEvents)
  show "State_get (snd (init h k opts s)) k = Some v"
    using st by (cases ?r) (auto simp add: i State_get_def split: option.splits)
  show "fst (init h k opts s) = Inr (StateElement_constructor k opts) \<longleftrightarrow> persistable h cfg v"
    using er by (cases ?r) (auto simp add: i split: option.splits)
  show "typeof v = typeof (defaultValue opts)"
    if "typeof (defaultValue opts) \<in> {TBoolean, TSymbol, TNumber, TString}"
    using valueFromString_kind [OF dec] that by blast
  show "typeof v = TNumber" if "typeof (defaultValue opts) = TBigint"
    using valueFromString_kind [OF dec] that by blast
next
  assume "valueFromString h (nextSymbol s) lv (typeof (defaultValue opts)) = Inl e"
  then show "init h k opts s = (Inl e, s)"
    using init_fresh [OF assms, of h] by simp
qed

theorem init_loads_persisted_witness:
  "State_get (snd (init demo_host ''count'' count_options (stored_registry ''count'' ''5''))) ''count'' =
     Some (VNumber (Integer 5)) \<and>
   State_get (snd (init demo_host ''clicks'' clicks_options (stored_registry ''clicks'' ''7''))) ''clicks'' =
     Some (VNumber (Integer 7)) \<and>
   typeof (VNumber (Integer 7) :: (demo_number, demo_object) StorageValue) =
     typeof (defaultValue clicks_options) \<and>
   fst (init demo_host ''clicks'' clicks_options (stored_registry ''clicks'' ''7'')) =
     Inr (StateElement_constructor ''clicks'' clicks_options) \<and>
   init demo_host ''o'' persistent_object_options (stored_registry ''o'' ''{'') =
     (Inl (HostError ''SyntaxError''), stored_registry ''o'' ''{'')"
proof -
  note p = persist_config_truthy
  have fresh: "map_of (elements (stored_registry k str)) k = None" for k str
    by (simp add: stored_registry_simps)
  have stored: "localStorage (stored_registry k str) (prefixKey (stored_registry k str) k) = Some str"
    for k str
    by (simp add: stored_registry_simps)
  have c1: "config count_options = Some persist_config"
    and c2: "config clicks_options = Some persist_config"
    and c3: "config persistent_object_options = Some persist_config"
    by (simp_all add: count_options_def clicks_options_def persistent_object_options_def
        persist_config_def)
  have k1: "typeof (defaultValue count_options) \<notin> {TFunction, TUndefined}"
    and k2: "typeof (defaultValue clicks_options) \<notin> {TFunction, TUndefined}"
    and k3: "typeof (defaultValue persistent_object_options) \<notin> {TFunction, TUndefined}"
    and k2': "typeof (defaultValue clicks_options) \<in> {TBoolean, TSymbol, TNumber, TString}"
    by (simp_all add: count_options_def clicks_options_def persistent_object_options_def)
  have d1: "valueFromString demo_host (nextSymbol (stored_registry ''count'' ''5'')) ''5''
              (typeof (defaultValue count_options)) = Inr (VNumber (Integer 5))"
    and d2: "valueFromString demo_host (nextSymbol (stored_registry ''clicks'' ''7'')) ''7''
              (typeof (defaultValue clicks_options)) = Inr (VNumber (Integer 7))"
    and d3: "valueFromString demo_host (nextSymbol (stored_registry ''o'' ''{'')) ''{''
              (typeof (defaultValue persistent_object_options)) = Inl (HostError ''SyntaxError'')"
    and ok: "persistable demo_host persist_config (VNumber (Integer 7))"
    by (simp_all add: count_options_def clicks_options_def persistent_object_options_def
        demo_host_def demo_parse_defs persistable_def)
  from init_loads_persisted [where h = demo_host and v = "VNumber (Integer 5)",
      OF fresh k1 c1 p stored [of "''count''" "''5''"]] d1
  have r1: "State_get (snd (init demo_host ''count'' count_options
      (stored_registry ''count'' ''5''))) ''count'' = Some (VNumber (Integer 5))"
    by blast
  from init_loads_persisted [where h = demo_host and v = "VNumber (Integer 7)",
      OF fresh k2 c2 p stored [of "''clicks''" "''7''"]] d2 k2' ok
  have r2: "State_get (snd (init demo_host ''clicks'' clicks_options
      (stored_registry ''clicks'' ''7''))) ''clicks'' = Some (VNumber (Integer 7))"
    and r3: "typeof (VNumber (Integer 7) :: (demo_number, demo_object) StorageValue) =
      typeof (defaultValue clicks_options)"
    and r4: "fst (init demo_host ''clicks'' clicks_options (stored_registry ''clicks'' ''7'')) =
      Inr (StateElement_constructor ''clicks'' clicks_options)"
    by blast+
  from init_loads_persisted [where h = demo_host and e = "HostError ''SyntaxError''",
      OF fresh k3 c3 p stored [of "''o''" "''{''"]] d3
  have r5: "init demo_host ''o'' persistent_object_options (stored_registry ''o'' ''{'') =
     (Inl (HostError ''SyntaxError''), stored_registry ''o'' ''{'')"
    by blast
  from r1 r2 r3 r4 r5 show ?thesis
    by (intro conjI)
qed

text \<open>
  A slot of kind bigint with \<open>"5"\<close> persisted: the initial value is the number
  \<open>5\<close>, not a big integer.
\<close>

theorem init_bigint_loads_number:
  "truthy (useLocalStorage persist_config) \<and>
   localStorage (stored_registry ''count'' ''5'') (prefixKey (stored_registry ''count'' ''5'') ''count'') = Some ''5'' \<and>
   fst (init demo_host ''count'' count_options (stored_registry ''count'' ''5'')) =
     Inr (StateElement_constructor ''count'' count_options) \<and>
   el_type (StateElement_constructor ''count'' count_options) = TBigint \<and>
   State_get (snd (init demo_host ''count'' count_options (stored_registry ''count'' ''5''))) ''count'' =
     Some (VNumber (Integer 5)) \<and>
   typeof (VNumber (Integer 5) :: (demo_number, demo_object) StorageValue) = TNumber"
  by (simp add: stored_registry_simps init_def Let_def count_options_def persist_config_def
      empty_StateElementConfig_def truthy_def State_set_def State_get_def demo_host_def
      demo_parse_defs StateElement_constructor_def)

subsection \<open>The key of a persisted value\<close>

lemma app_registry_simps:
  "prefix (st_config app_registry) = Some ''app''"
  "localStorage app_registry = Map.empty"
  "elements app_registry = []"
  by (simp_all add: app_registry_def app_config_def new_State_def spread_StateConfig_def
      default_StateConfig_def spread_field_def)

lemma app_saved_simps:
  "st_config app_saved = st_config app_registry"
  "localStorage app_saved = [''app-k'' \<mapsto> ''x'']"
  "elements app_saved = []"
  by (simp_all add: app_saved_def State_set_fields State_set_localStorage persist_config_truthy
      app_registry_simps prefixKey_def)

text \<open>
  Claim C9, amended. A value is persisted, and loaded by \<open>init\<close>, under
  \<open>prefixKey\<close> of the slot key: the slot key itself when the prefix is empty, as it
  is by default, and the prefix, a hyphen and the slot key otherwise.
\<close>

theorem persistence_key:
  "((case cfg of None \<Rightarrow> True | Some c \<Rightarrow> prefix c = None) \<longrightarrow>
      prefixKey (new_State cfg store fresh :: ('n, 'o) State) k = k) \<and>
   prefixKey s k =
     (case prefix (st_config s) of
        None \<Rightarrow> k
      | Some p \<Rightarrow> if p = [] then k else p @ ''-'' @ k) \<and>
   (truthy (useLocalStorage cfg') \<and> valueToString h v = Inr str \<longrightarrow>
      localStorage (snd (State_set h k v cfg' (s :: ('n, 'o) State))) =
        (localStorage s)(prefixKey s k \<mapsto> str)) \<and>
   (map_of (elements s) k = None \<and> typeof (defaultValue opts) \<notin> {TFunction, TUndefined} \<and>
    config opts = Some cfg' \<and> truthy (useLocalStorage cfg') \<longrightarrow>
      State_get (snd (init h k opts s)) k =
        (case localStorage s (prefixKey s k) of
           None \<Rightarrow> Some (defaultValue opts)
         | Some lv \<Rightarrow>
             (case valueFromString h (nextSymbol s) lv (typeof (defaultValue opts)) of
                Inl e \<Rightarrow> State_get s k
              | Inr v \<Rightarrow> Some v)))"
proof (intro conjI impI)
  show "prefixKey (new_State cfg store fresh :: ('n, 'o) State) k = k"
    if "case cfg of None \<Rightarrow> True | Some c \<Rightarrow> prefix c = None"
    using that
    by (cases cfg) (simp_all add: prefixKey_def new_State_def default_StateConfig_def
        spread_StateConfig_def spread_field_def)
  show "prefixKey s k =
     (case prefix (st_config s) of None \<Rightarrow> k | Some p \<Rightarrow> if p = [] then k else p @ ''-'' @ k)"
    by (simp add: prefixKey_def)
  show "localStorage (snd (State_set h k v cfg' s)) = (localStorage s)(prefixKey s k \<mapsto> str)"
    if "truthy (useLocalStorage cfg') \<and> valueToString h v = Inr str"
    using that by (simp add: State_set_localStorage)
  show "State_get (snd (init h k opts s)) k =
        (case localStorage s (prefixKey s k) of
           None \<Rightarrow> Some (defaultValue opts)
         | Some lv \<Rightarrow>
             (case valueFromString h (nextSymbol s) lv (typeof (defaultValue opts)) of
                Inl e \<Rightarrow> State_get s k
              | Inr v \<Rightarrow> Some v))"
    if "map_of (elements s) k = None \<and> typeof (defaultValue opts) \<notin> {TFunction, TUndefined} \<and>
        config opts = Some cfg' \<and> truthy (useLocalStorage cfg')"
    using that init_load [of s k opts cfg' h] by blast
qed

theorem persistence_key_witness:
  "prefixKey empty_registry ''k'' = ''k'' \<and>
   prefixKey app_registry ''k'' = ''app-k'' \<and>
   truthy (useLocalStorage persist_config) \<and>
   valueToString demo_host (VString ''x'') = Inr ''x'' \<and>
   localStorage (snd (State_set demo_host ''k'' (VString ''x'') persist_config app_registry)) =
     [''app-k'' \<mapsto> ''x''] \<and>
   map_of (elements app_saved) ''k'' = None \<and>
   config k_options = Some persist_config \<and>
   localStorage app_saved ''app-k'' = Some ''x'' \<and>
   State_get (snd (init demo_host ''k'' k_options app_saved)) ''k'' = Some (VString ''x'')"
proof -
  have a: "case (None :: StateConfig option) of None \<Rightarrow> True | Some c \<Rightarrow> prefix c = None"
    by simp
  have b: "truthy (useLocalStorage persist_config) \<and>
      valueToString demo_host (VString ''x'') = Inr ''x''"
    by (simp add: persist_config_truthy)
  have c: "map_of (elements app_saved) ''k'' = None \<and>
      typeof (defaultValue k_options) \<notin> {TFunction, TUndefined} \<and>
      config k_options = Some persist_config \<and> truthy (useLocalStorage persist_config)"
    by (simp add: app_saved_simps k_options_def persist_config_truthy)
  note t1 = persistence_key [where cfg = None and s = app_registry and k = "''k''" and h = demo_host
      and cfg' = persist_config and v = "VString ''x''" and str = "''x''"
      and store = Map.empty and fresh = 0]
  note t2 = persistence_key [where cfg = None and s = app_saved and k = "''k''" and h = demo_host
      and cfg' = persist_config and opts = k_options]
  from t1 a have r1: "prefixKey empty_registry ''k'' = ''k''"
    unfolding empty_registry_def by blast
  from t1 have r2: "prefixKey app_registry ''k'' = ''app-k''"
    by (simp add: app_registry_simps)
  from t1 b have r3: "localStorage (snd (State_set demo_host ''k'' (VString ''x'') persist_config
      app_registry)) = [''app-k'' \<mapsto> ''x'']"
    by (simp add: app_registry_simps)
  from t2 c have r4: "State_get (snd (init demo_host ''k'' k_options app_saved)) ''k'' =
      Some (VString ''x'')"
    by (simp add: app_saved_simps app_registry_simps prefixKey_def k_options_def)
  from r1 r2 r3 r4 b c show ?thesis
    by (simp add: app_saved_simps)
qed

text \<open>
  With the prefix \<open>"app"\<close> and the key \<open>"k"\<close> the value is stored under
  \<open>"app-k"\<close>, and nothing is stored under \<open>"appk"\<close>.
\<close>

theorem persistence_key_has_separator:
  "prefix (st_config app_registry) = Some ''app'' \<and>
   truthy (useLocalStorage persist_config) \<and>
   localStorage (snd (State_set demo_host ''k'' (VString ''x'') persist_config app_registry))
     (''app'' @ ''k'') = None \<and>
   localStorage (snd (State_set demo_host ''k'' (VString ''x'') persist_config app_registry))
     ''app-k'' = Some ''x''"
  by (simp add: State_set_localStorage persist_config_truthy app_registry_simps prefixKey_def)

subsection \<open>Frames of the operations\<close>

text \<open>
  Every operation but \<open>init\<close> and the constructor of \<open>StateComponent\<close> is quiet;
  \<open>init\<close> is quiet up to the element it appends, and the constructor adds listeners
  of the new component only. So every client evolves the registry and keeps it well
  formed.
\<close>

lemma quiet_refl: "quiet s s"
  by (simp add: quiet_def)

lemma quiet_trans:
  assumes "quiet s s'" and "quiet s' s''"
  shows "quiet s s''"
proof -
  obtain xs where xs: "calls s' = calls s @ xs"
    "list_all (\<lambda>x. receiver x \<in> set (map (\<lambda>tl. owner (snd tl)) (listeners s))) xs"
    using assms(1) by (auto simp add: quiet_def)
  obtain ys where ys: "calls s'' = calls s' @ ys"
    "list_all (\<lambda>x. receiver x \<in> set (map (\<lambda>tl. owner (snd tl)) (listeners s'))) ys"
    using assms(2) by (auto simp add: quiet_def)
  have l: "listeners s' = listeners s"
    using assms(1) by (simp add: quiet_def)
  have "calls s'' = calls s @ (xs @ ys)"
    by (simp add: xs ys)
  moreover have "list_all (\<lambda>x. receiver x \<in> set (map (\<lambda>tl. owner (snd tl)) (listeners s))) (xs @ ys)"
    using xs(2) ys(2) by (simp add: l)
  ultimately show ?thesis
    using assms unfolding quiet_def by (intro conjI exI [of _ "xs @ ys"]) simp_all
qed

lemma quiet_update:
  "quiet s (s\<lparr>nextSymbol := n\<rparr>)"
  "quiet s (s\<lparr>console_error := l\<rparr>)"
  "quiet s (s\<lparr>storage := st\<rparr>)"
  "quiet s (s\<lparr>localStorage := ls\<rparr>)"
  by (simp_all add: quiet_def)

lemma State_set_calls:
  "calls (snd (State_set h k v cfg s)) =
     calls s @
       (if persistable h cfg v \<and> truthy (useEvents cfg)
        then delivered (listeners s) (CustomEvent k (Detail v)) @
               (if truthy (useChangeEvent (st_config s))
                then delivered (listeners s) (CustomEvent ''change'' (DetailKV k v)) else [])
        else [])"
  by (simp add: State_set_def Let_def persistable_def dispatchEvent_def delivered_def
      split: sum.splits)

lemma delivered_receivers:
  "list_all (\<lambda>x. receiver x \<in> (\<lambda>tl. owner (snd tl)) ` set ls) (delivered ls e)"
  by (auto simp add: delivered_def list_all_iff receiver_invoke)

lemma quiet_State_set: "quiet s (snd (State_set h k v cfg s))"
  unfolding quiet_def
  by (simp add: State_set_fields State_set_calls delivered_receivers)

lemma quiet_StateElement_set: "quiet s (snd (StateElement_set h el v s))"
  by (cases "typeof v = el_type el")
    (simp_all add: StateElement_set_match StateElement_set_mismatch quiet_State_set quiet_refl)

lemma quiet_reset: "quiet s (snd (reset h el s))"
  by (simp add: reset_def quiet_StateElement_set)

lemma forEach_invariant:
  assumes "\<And>x s. Q s \<Longrightarrow> Q (snd (f x s))" and "Q s"
  shows "Q (snd (forEach f xs s))"
  using assms(2)
proof (induction xs arbitrary: s)
  case Nil
  then show ?case by simp
next
  case (Cons x xs)
  have "Q (snd (f x s))" using Cons.prems by (rule assms(1))
  then show ?case
    using Cons.IH [of "snd (f x s)"]
    by (cases "f x s") (auto split: option.splits)
qed

lemma quiet_forEach:
  assumes "\<And>x s. quiet s (snd (f x s))"
  shows "quiet s (snd (forEach f xs s))"
  by (rule forEach_invariant [where Q = "quiet s"])
    (auto intro: quiet_trans assms quiet_refl)

lemma quiet_refetch: "quiet s (snd (refetch h entry s))"
proof -
  have "quiet s (snd (try_catch (refetch_set h el lv) console_error_log s))" for el lv
  proof (cases "valueFromString h (nextSymbol s) lv (el_type el)")
    case (Inl e)
    then show ?thesis
      by (simp add: try_catch_def refetch_set_def console_error_log_def quiet_update)
  next
    case (Inr v)
    let ?r = "StateElement_set h el v (s\<lparr>nextSymbol := Suc (nextSymbol s)\<rparr>)"
    have "quiet s (snd ?r)"
      by (rule quiet_trans [OF quiet_update(1) quiet_StateElement_set])
    then show ?thesis
      using Inr
      by (cases ?r)
        (auto simp add: try_catch_def refetch_set_def console_error_log_def
          split: option.splits intro: quiet_trans [OF _ quiet_update(2)])
  qed
  then show ?thesis
    by (simp add: refetch_def Let_def quiet_refl split: option.splits)
qed

lemma quiet_window_focus: "quiet s (snd (window_focus h s))"
  by (simp add: window_focus_def quiet_refl quiet_forEach quiet_refetch)

lemma quiet_resetAll: "quiet s (snd (resetAll h component s))"
  by (simp add: resetAll_def quiet_forEach quiet_reset)

lemma quiet_calls_of:
  assumes "quiet s s'" and "listeners_of c s = []"
  shows "calls_of c s' = calls_of c s"
proof -
  obtain xs where xs: "calls s' = calls s @ xs"
    "list_all (\<lambda>x. receiver x \<in> set (map (\<lambda>tl. owner (snd tl)) (listeners s))) xs"
    using assms(1) by (auto simp add: quiet_def)
  have "c \<notin> set (map (\<lambda>tl. owner (snd tl)) (listeners s))"
    using assms(2) by (auto simp add: listeners_of_def filter_empty_conv)
  then have "filter (\<lambda>x. receiver x = c) xs = []"
    using xs(2) by (auto simp add: list_all_iff filter_empty_conv)
  then show ?thesis
    by (simp add: calls_of_def xs(1))
qed

lemma quiet_evolves: "quiet s s' \<Longrightarrow> evolves s s'"
  using quiet_calls_of [of s s'] by (auto simp add: evolves_def quiet_def listeners_of_def)

lemma quiet_well_formed: "quiet s s' \<Longrightarrow> well_formed s \<Longrightarrow> well_formed s'"
  by (fastforce simp add: quiet_def well_formed_def list_all_iff)

lemma evolves_refl: "evolves s s"
  by (simp add: evolves_def)

lemma evolves_trans: "evolves s s' \<Longrightarrow> evolves s' s'' \<Longrightarrow> evolves s s''"
  unfolding evolves_def by (metis (no_types, lifting) le_trans less_le_trans)

lemma evolves_elements: "evolves s (s\<lparr>elements := es\<rparr>)"
  by (simp add: evolves_def listeners_of_def calls_of_def)

lemma quiet_State_set_result: "State_set h k v cfg s = (r, s') \<Longrightarrow> quiet s s'"
  using quiet_State_set [of s h k v cfg] by simp

lemma quiet_State_set_result':
  assumes "State_set h k v cfg (s\<lparr>nextSymbol := n\<rparr>) = (r, s')"
  shows "quiet s s'"
  using quiet_trans [OF quiet_update(1) quiet_State_set_result [OF assms]] .

lemma init_Inl:
  assumes "init h k opts s = (Inl e, s')"
  shows "quiet s s'"
  using assms
  by (auto simp add: init_def Let_def quiet_refl
      split: if_splits sum.splits option.splits prod.splits
      intro: quiet_State_set_result quiet_State_set_result')

lemma init_Inr_state:
  assumes "init h k opts s = (Inr el, s')"
  shows "map_of (elements s) k = None \<and>
         (\<exists>s''. quiet s s'' \<and> s' = s''\<lparr>elements := elements s'' @ [(k, StateElement_constructor k opts)]\<rparr>)"
  using assms
  by (auto simp add: init_def Let_def
      split: if_splits sum.splits option.splits prod.splits
      intro: quiet_State_set_result quiet_State_set_result')

lemma init_shape:
  "\<exists>s''. quiet s s'' \<and>
     (snd (init h k opts s) = s'' \<or>
      map_of (elements s) k = None \<and>
      snd (init h k opts s) =
        s''\<lparr>elements := elements s'' @ [(k, StateElement_constructor k opts)]\<rparr>)"
proof (cases "init h k opts s")
  case (Pair r s')
  show ?thesis
  proof (cases r)
    case (Inl e)
    then show ?thesis
      using Pair init_Inl [of h k opts s e s'] by auto
  next
    case (Inr el)
    then show ?thesis
      using Pair init_Inr_state [of h k opts s el s'] by auto
  qed
qed

lemma evolves_init: "evolves s (snd (init h k opts s))"
  using init_shape [of s h k opts]
  by (auto intro: quiet_evolves evolves_trans [OF quiet_evolves evolves_elements])

lemma well_formed_elements_snoc:
  assumes "well_formed s" and "map_of (elements s) k = None" and "key el = k"
  shows "well_formed (s\<lparr>elements := elements s @ [(k, el)]\<rparr>)"
  using assms by (auto simp add: well_formed_def map_of_eq_None_iff)

lemma well_formed_init: "well_formed s \<Longrightarrow> well_formed (snd (init h k opts s))"
proof -
  assume w: "well_formed s"
  obtain s'' where q: "quiet s s''"
    and c: "snd (init h k opts s) = s'' \<or>
      map_of (elements s) k = None \<and>
      snd (init h k opts s) = s''\<lparr>elements := elements s'' @ [(k, StateElement_constructor k opts)]\<rparr>"
    using init_shape [of s h k opts] by blast
  have w'': "well_formed s''" using q w by (rule quiet_well_formed)
  have e: "elements s'' = elements s" using q by (simp add: quiet_def)
  show ?thesis
    using c w'' well_formed_elements_snoc [of s'' k "StateElement_constructor k opts"]
    by (auto simp add: e StateElement_constructor_def)
qed

lemma bind_all_state:
  "snd (bind_all c ov es sts s) =
     s\<lparr>listeners := listeners s @
         (if ov then map (\<lambda>el. (key el, ElementListener c (key el))) es else [])\<rparr>"
  by (induction es arbitrary: sts s)
    (simp_all add: Let_def addListener_def addEventListener_def)

lemma assign_all:
  "list_all P sts \<Longrightarrow> P (k, v) \<Longrightarrow> list_all P (assign k v sts)"
  by (induction sts) auto

lemma bind_all_states:
  assumes "list_all (\<lambda>entry. snd entry \<in> E) sts" and "set es \<subseteq> E"
  shows "list_all (\<lambda>entry. snd entry \<in> E) (fst (bind_all c ov es sts s))"
  using assms
  by (induction es arbitrary: sts s) (simp_all add: Let_def assign_all)

lemma filed_map_of_key:
  "list_all (\<lambda>entry. key (snd entry) = fst entry) es \<Longrightarrow> map_of es k = Some el \<Longrightarrow> key el = k"
  by (auto simp add: list_all_iff dest!: map_of_SomeD)

lemma bind_keys_Inr:
  assumes "bind_keys c ov ks sts s = (Inr sts', s')"
    and "list_all (\<lambda>entry. key (snd entry) = fst entry) (elements s)"
    and "list_all (\<lambda>entry. key (snd entry) \<in> K) sts" and "set ks \<subseteq> K"
  shows "s' = s\<lparr>listeners := listeners s @
              (if ov then map (\<lambda>k. (k, ElementListener c k)) ks else [])\<rparr> \<and>
         list_all (\<lambda>entry. key (snd entry) \<in> K) sts'"
  using assms
proof (induction ks arbitrary: sts s)
  case Nil
  then show ?case by simp
next
  case (Cons k ks)
  from Cons.prems(1) obtain el where el: "map_of (elements s) k = Some el"
    by (auto simp add: attach_def split: option.splits)
  have key: "key el = k"
    using Cons.prems(2) el by (rule filed_map_of_key)
  let ?s1 = "if ov then addListener el (ElementListener c k) s else s"
  have rest: "bind_keys c ov ks (assign k el sts) ?s1 = (Inr sts', s')"
    using Cons.prems(1) el by (simp add: attach_def Let_def)
  have filed1: "list_all (\<lambda>entry. key (snd entry) = fst entry) (elements ?s1)"
    using Cons.prems(2) by (simp add: addListener_def addEventListener_def)
  have all1: "list_all (\<lambda>entry. key (snd entry) \<in> K) (assign k el sts)"
    using Cons.prems(3,4) key by (simp add: assign_all)
  have "s' = ?s1\<lparr>listeners := listeners ?s1 @
              (if ov then map (\<lambda>k. (k, ElementListener c k)) ks else [])\<rparr> \<and>
         list_all (\<lambda>entry. key (snd entry) \<in> K) sts'"
    using Cons.IH [OF rest filed1 all1] Cons.prems(4) by simp
  then show ?case
    by (simp add: addListener_def addEventListener_def key)
qed

lemma bind_keys_shape:
  "\<exists>ls. snd (bind_keys c ov ks sts s) = s\<lparr>listeners := listeners s @ ls\<rparr> \<and>
        list_all (\<lambda>tl. owner (snd tl) = c) ls"
proof (induction ks arbitrary: sts s)
  case Nil
  have "s = s\<lparr>listeners := listeners s @ []\<rparr>" by simp
  then show ?case by (auto intro!: exI [of _ "[]"])
next
  case (Cons k ks)
  show ?case
  proof (cases "map_of (elements s) k")
    case None
    have "s = s\<lparr>listeners := listeners s @ []\<rparr>" by simp
    then show ?thesis
      using None by (auto simp add: attach_def intro!: exI [of _ "[]"])
  next
    case (Some el)
    let ?new = "if ov then [(key el, ElementListener c k)] else []"
    let ?s1 = "s\<lparr>listeners := listeners s @ ?new\<rparr>"
    obtain ls where ls: "snd (bind_keys c ov ks (assign k el sts) ?s1) =
        ?s1\<lparr>listeners := listeners ?s1 @ ls\<rparr>" "list_all (\<lambda>tl. owner (snd tl) = c) ls"
      using Cons.IH [of "assign k el sts" ?s1] by blast
    have "snd (bind_keys c ov (k # ks) sts s) = snd (bind_keys c ov ks (assign k el sts) ?s1)"
      using Some by (simp add: attach_def Let_def addListener_def addEventListener_def)
    then have "snd (bind_keys c ov (k # ks) sts s) = s\<lparr>listeners := listeners s @ (?new @ ls)\<rparr>"
      by (simp add: ls(1))
    moreover have "list_all (\<lambda>tl. owner (snd tl) = c) (?new @ ls)"
      using ls(2) by simp
    ultimately show ?thesis by blast
  qed
qed

lemma constructor_shape:
  "\<exists>ls. snd (StateComponent_constructor ov arg s) =
          s\<lparr>nextComponent := Suc (nextComponent s), listeners := listeners s @ ls\<rparr> \<and>
        list_all (\<lambda>tl. owner (snd tl) = nextComponent s) ls"
proof -
  let ?c = "nextComponent s"
  let ?s0 = "s\<lparr>nextComponent := Suc ?c\<rparr>"
  have none: "?s0 = s\<lparr>nextComponent := Suc ?c, listeners := listeners s @ []\<rparr>"
    by simp
  have keys: ?thesis if "arg = Keys ks" for ks
  proof -
    obtain ls where ls: "snd (bind_keys ?c ov ks [] ?s0) = ?s0\<lparr>listeners := listeners ?s0 @ ls\<rparr>"
      "list_all (\<lambda>tl. owner (snd tl) = ?c) ls"
      using bind_keys_shape [of ?c ov ks "[]" ?s0] by blast
    have "snd (StateComponent_constructor ov arg s) = snd (bind_keys ?c ov ks [] ?s0)"
      using that by (simp add: StateComponent_constructor_def Let_def split: prod.splits sum.splits)
    then show ?thesis
      using ls by (intro exI [of _ ls]) simp
  qed
  have all: ?thesis if "arg = Flag True"
  proof -
    let ?ls = "if ov then map (\<lambda>el. (key el, ElementListener ?c (key el))) (map snd (elements ?s0)) else []"
    have "snd (StateComponent_constructor ov arg s) = snd (bind_all ?c ov (map snd (elements ?s0)) [] ?s0)"
      using that by (simp add: StateComponent_constructor_def Let_def split: prod.splits)
    then have "snd (StateComponent_constructor ov arg s) = ?s0\<lparr>listeners := listeners ?s0 @ ?ls\<rparr>"
      by (simp only: bind_all_state)
    moreover have "list_all (\<lambda>tl. owner (snd tl) = ?c) ?ls"
      by (auto simp add: list_all_iff)
    ultimately show ?thesis
      by (intro exI [of _ ?ls]) simp
  qed
  have other: ?thesis if "arg = Absent \<or> arg = Flag False"
  proof (cases ov)
    case True
    then show ?thesis
      using that
      by (intro exI [of _ "[(''change'', ChangeListener ?c)]"])
        (auto simp add: StateComponent_constructor_def Let_def addEventListener_def)
  next
    case False
    then show ?thesis
      using that none
      by (intro exI [of _ "[]"]) (auto simp add: StateComponent_constructor_def Let_def)
  qed
  show ?thesis
  proof (cases arg)
    case Absent
    then show ?thesis using other by simp
  next
    case (Flag b)
    then show ?thesis using other all by (cases b) simp_all
  next
    case (Keys ks)
    then show ?thesis using keys by simp
  qed
qed

lemma evolves_constructor: "evolves s (snd (StateComponent_constructor ov arg s))"
proof -
  obtain ls where ls: "snd (StateComponent_constructor ov arg s) =
      s\<lparr>nextComponent := Suc (nextComponent s), listeners := listeners s @ ls\<rparr>"
    "list_all (\<lambda>tl. owner (snd tl) = nextComponent s) ls"
    using constructor_shape [of ov arg s] by blast
  have "filter (\<lambda>tl. owner (snd tl) = c) ls = []" if "c < nextComponent s" for c
    using ls(2) that by (auto simp add: list_all_iff filter_empty_conv)
  then show ?thesis
    by (simp add: evolves_def ls(1) listeners_of_def calls_of_def)
qed

lemma well_formed_constructor: "well_formed s \<Longrightarrow> well_formed (snd (StateComponent_constructor ov arg s))"
proof -
  assume w: "well_formed s"
  obtain ls where ls: "snd (StateComponent_constructor ov arg s) =
      s\<lparr>nextComponent := Suc (nextComponent s), listeners := listeners s @ ls\<rparr>"
    "list_all (\<lambda>tl. owner (snd tl) = nextComponent s) ls"
    using constructor_shape [of ov arg s] by blast
  show ?thesis
    using w ls(2) by (auto simp add: ls(1) well_formed_def list_all_iff less_Suc_eq)
qed

lemma evolves_perform: "evolves s (perform h a s)"
  by (cases a)
    (simp_all add: evolves_init evolves_constructor
      quiet_evolves [OF quiet_StateElement_set] quiet_evolves [OF quiet_reset]
      quiet_evolves [OF quiet_State_set] quiet_evolves [OF quiet_resetAll]
      quiet_evolves [OF quiet_window_focus] quiet_evolves [OF quiet_update(4)])

lemma well_formed_perform: "well_formed s \<Longrightarrow> well_formed (perform h a s)"
  by (cases a)
    (simp_all add: well_formed_init well_formed_constructor
      quiet_well_formed [OF quiet_StateElement_set] quiet_well_formed [OF quiet_reset]
      quiet_well_formed [OF quiet_State_set] quiet_well_formed [OF quiet_resetAll]
      quiet_well_formed [OF quiet_window_focus] quiet_well_formed [OF quiet_update(4)])

lemma evolves_run: "evolves s (run h acts s)"
proof (induction acts arbitrary: s)
  case Nil
  then show ?case by (simp add: run_def evolves_refl)
next
  case (Cons a acts)
  have "evolves s (perform h a s)" by (rule evolves_perform)
  moreover have "evolves (perform h a s) (run h acts (perform h a s))" by (rule Cons.IH)
  ultimately show ?case
    unfolding run_def by (simp add: evolves_trans)
qed

lemma well_formed_run: "well_formed s \<Longrightarrow> well_formed (run h acts s)"
  by (induction acts arbitrary: s) (simp_all add: run_def well_formed_perform)

lemma well_formed_new_State: "well_formed (new_State cfg store fresh)"
  by (simp add: well_formed_def new_State_def)

lemma well_formed_State_constructor:
  "well_formed (snd (State_constructor h cfg initElements store fresh))"
  unfolding State_constructor_def
proof (rule forEach_invariant [where Q = well_formed])
  show "well_formed (new_State cfg store fresh)"
    by (rule well_formed_new_State)
next
  fix entry :: "string \<times> ('a, 'b) StateElementOptions" and s :: "('a, 'b) State"
  assume "well_formed s"
  then have "well_formed (snd (init h (fst entry) (snd entry) s))"
    by (rule well_formed_init)
  then show "well_formed (snd (case init h (fst entry) (snd entry) s of
      (Inl e, s') \<Rightarrow> (Some e, s') | (Inr element, s') \<Rightarrow> (None, s')))"
    by (auto split: prod.splits sum.splits)
qed

lemma well_formed_fresh:
  assumes "well_formed s"
  shows "listeners_of (nextComponent s) s = []" and "calls_of (nextComponent s) s = []"
  using assms by (auto simp add: well_formed_def listeners_of_def calls_of_def list_all_iff filter_empty_conv)

lemma evolves_calls_of:
  "evolves s s' \<Longrightarrow> c < nextComponent s \<Longrightarrow> listeners_of c s = [] \<Longrightarrow>
   calls_of c s' = calls_of c s"
  by (simp add: evolves_def)

subsection \<open>A component built on an empty key list\<close>

text \<open>
  Claim C10. In every registry a client can reach, the constructor given the empty
  array takes the branch of the key list: it returns a component with no bound slot and
  adds no listener, whether or not \<open>$onStateChange\<close> is overridden, and whatever the
  client does afterwards, the component receives no call. Given no argument or
  \<open>false\<close>, and an override, the constructor adds the listener of the aggregate
  event.
\<close>

theorem empty_key_list_never_notified:
  fixes h :: "('n, 'o) host" and history cfg store fresh
  defines "s \<equiv> run h history (new_State cfg store fresh)"
  shows "StateComponent_constructor overrides (Keys []) s =
           (Inr \<lparr>identity = nextComponent s, states = []\<rparr>,
            s\<lparr>nextComponent := Suc (nextComponent s)\<rparr>) \<and>
         listeners (snd (StateComponent_constructor overrides (Keys []) s)) = listeners s \<and>
         calls_of (nextComponent s)
           (run h acts (snd (StateComponent_constructor overrides (Keys []) s))) = [] \<and>
         listeners (snd (StateComponent_constructor True Absent s)) =
           listeners s @ [(''change'', ChangeListener (nextComponent s))] \<and>
         listeners (snd (StateComponent_constructor True (Flag False) s)) =
           listeners s @ [(''change'', ChangeListener (nextComponent s))]"
proof -
  define c where "c = nextComponent s"
  define s1 where "s1 = s\<lparr>nextComponent := Suc c\<rparr>"
  have w: "well_formed s"
    unfolding s_def by (rule well_formed_run [OF well_formed_new_State])
  have con: "StateComponent_constructor overrides (Keys []) s =
      (Inr \<lparr>identity = c, states = []\<rparr>, s1)"
    by (simp add: StateComponent_constructor_def Let_def c_def s1_def)
  have "listeners_of c s1 = []" "calls_of c s1 = []" "c < nextComponent s1"
    using well_formed_fresh [OF w] by (simp_all add: s1_def c_def listeners_of_def calls_of_def)
  then have never: "calls_of c (run h acts s1) = []"
    using evolves_calls_of [OF evolves_run, of c s1 h acts] by simp
  have abs: "listeners (snd (StateComponent_constructor True Absent s)) =
      listeners s @ [(''change'', ChangeListener c)]"
    and flag: "listeners (snd (StateComponent_constructor True (Flag False) s)) =
      listeners s @ [(''change'', ChangeListener c)]"
    by (simp_all add: StateComponent_constructor_def Let_def addEventListener_def c_def)
  show ?thesis
    using con never abs flag
    unfolding c_def [symmetric] by (simp add: s1_def c_def)
qed

subsection \<open>Calls of the reaction hook\<close>

lemma calls_of_delivered:
  "filter (\<lambda>x. receiver x = c) (delivered ls e) = delivered (filter (\<lambda>tl. owner (snd tl) = c) ls) e"
  by (simp add: delivered_def filter_map o_def receiver_invoke conj_commute)

lemma calls_of_State_set:
  "calls_of c (snd (State_set h k v cfg s)) =
     calls_of c s @
       (if persistable h cfg v \<and> truthy (useEvents cfg)
        then delivered (listeners_of c s) (CustomEvent k (Detail v)) @
               (if truthy (useChangeEvent (st_config s))
                then delivered (listeners_of c s) (CustomEvent ''change'' (DetailKV k v)) else [])
        else [])"
  by (simp add: calls_of_def State_set_calls calls_of_delivered listeners_of_def)

lemma delivered_keys:
  assumes "distinct ks"
  shows "delivered (map (\<lambda>k. (k, ElementListener c k)) ks) (CustomEvent t d) =
           (if t \<in> set ks then [OnStateChange c t d] else [])"
  using assms by (induction ks) (auto simp add: delivered_def)

lemma delivered_change:
  "delivered [(''change'', ChangeListener c)] (CustomEvent t d) =
     (if t = ''change'' then [invoke (ChangeListener c) (CustomEvent t d)] else [])"
  by (auto simp add: delivered_def)

lemma notified:
  assumes "evolves s1 s2" and "c < nextComponent s1"
    and "typeof v = el_type el" and "truthy (useEvents (el_config el))"
    and "persistable h (el_config el) (transformed el v)"
  shows "calls_of c (snd (StateElement_set h el v s2)) =
           calls_of c s2 @
             delivered (listeners_of c s1) (CustomEvent (key el) (Detail (transformed el v))) @
             (if truthy (useChangeEvent (st_config s1))
              then delivered (listeners_of c s1)
                     (CustomEvent ''change'' (DetailKV (key el) (transformed el v)))
              else [])"
proof -
  have "listeners_of c s2 = listeners_of c s1" "st_config s2 = st_config s1"
    using assms(1,2) by (simp_all add: evolves_def)
  then show ?thesis
    using assms(3-5) by (simp add: StateElement_set_match calls_of_State_set)
qed

lemma constructor_Keys:
  assumes "StateComponent_constructor ov (Keys ks) s = (Inr component, s1)" and "well_formed s"
  shows "identity component = nextComponent s"
    and "nextComponent s1 = Suc (nextComponent s)"
    and "listeners_of (nextComponent s) s1 =
           (if ov then map (\<lambda>k. (k, ElementListener (nextComponent s) k)) ks else [])"
    and "list_all (\<lambda>entry. key (snd entry) \<in> set ks) (states component)"
proof -
  let ?c = "nextComponent s"
  let ?s0 = "s\<lparr>nextComponent := Suc ?c\<rparr>"
  obtain sts where b: "bind_keys ?c ov ks [] ?s0 = (Inr sts, s1)"
    and comp: "component = \<lparr>identity = ?c, states = sts\<rparr>"
    using assms(1)
    by (auto simp add: StateComponent_constructor_def Let_def split: prod.splits sum.splits)
  have filed: "list_all (\<lambda>entry. key (snd entry) = fst entry) (elements ?s0)"
    using assms(2) by (simp add: well_formed_def)
  have r: "s1 = ?s0\<lparr>listeners := listeners ?s0 @
              (if ov then map (\<lambda>k. (k, ElementListener ?c k)) ks else [])\<rparr> \<and>
         list_all (\<lambda>entry. key (snd entry) \<in> set ks) sts"
    by (rule bind_keys_Inr [OF b filed]) simp_all
  have old: "filter (\<lambda>tl. owner (snd tl) = ?c) (listeners s) = []"
    using well_formed_fresh(1) [OF assms(2)] by (simp add: listeners_of_def)
  show "identity component = ?c" by (simp add: comp)
  show "nextComponent s1 = Suc ?c" using r by simp
  show "listeners_of ?c s1 = (if ov then map (\<lambda>k. (k, ElementListener ?c k)) ks else [])"
    using r old by (auto simp add: listeners_of_def filter_map o_def)
  show "list_all (\<lambda>entry. key (snd entry) \<in> set ks) (states component)"
    using r by (simp add: comp)
qed

lemma constructor_All:
  assumes "StateComponent_constructor ov (Flag True) s = (Inr component, s1)" and "well_formed s"
  shows "identity component = nextComponent s"
    and "nextComponent s1 = Suc (nextComponent s)"
    and "listeners_of (nextComponent s) s1 =
           (if ov then map (\<lambda>k. (k, ElementListener (nextComponent s) k)) (map fst (elements s))
            else [])"
    and "list_all (\<lambda>entry. snd entry \<in> snd ` set (elements s)) (states component)"
proof -
  let ?c = "nextComponent s"
  let ?s0 = "s\<lparr>nextComponent := Suc ?c\<rparr>"
  let ?es = "map snd (elements s)"
  have comp: "component = \<lparr>identity = ?c, states = fst (bind_all ?c ov ?es [] ?s0)\<rparr>"
    and s1: "s1 = snd (bind_all ?c ov ?es [] ?s0)"
    using assms(1)
    by (auto simp add: StateComponent_constructor_def Let_def split: prod.splits)
  have keys: "map (\<lambda>el. (key el, ElementListener ?c (key el))) ?es =
      map (\<lambda>k. (k, ElementListener ?c k)) (map fst (elements s))"
    using assms(2) by (auto simp add: well_formed_def list_all_iff)
  have old: "filter (\<lambda>tl. owner (snd tl) = ?c) (listeners s) = []"
    using well_formed_fresh(1) [OF assms(2)] by (simp add: listeners_of_def)
  show "identity component = ?c" by (simp add: comp)
  show "nextComponent s1 = Suc ?c" by (simp add: s1 bind_all_state)
  show "listeners_of ?c s1 =
      (if ov then map (\<lambda>k. (k, ElementListener ?c k)) (map fst (elements s)) else [])"
    using old keys by (auto simp add: s1 bind_all_state listeners_of_def filter_map o_def)
  show "list_all (\<lambda>entry. snd entry \<in> snd ` set (elements s)) (states component)"
    unfolding comp using bind_all_states [of "snd ` set (elements s)" "[]" ?es ?c ov ?s0]
    by simp
qed

lemma constructor_None:
  assumes "StateComponent_constructor ov arg s = (Inr component, s1)" and "well_formed s"
    and "arg = Absent \<or> arg = Flag False"
  shows "identity component = nextComponent s"
    and "nextComponent s1 = Suc (nextComponent s)"
    and "listeners_of (nextComponent s) s1 =
           (if ov then [(''change'', ChangeListener (nextComponent s))] else [])"
    and "states component = []"
proof -
  have old: "filter (\<lambda>tl. owner (snd tl) = nextComponent s) (listeners s) = []"
    using well_formed_fresh(1) [OF assms(2)] by (simp add: listeners_of_def)
  show "identity component = nextComponent s" "nextComponent s1 = Suc (nextComponent s)"
    "states component = []"
    "listeners_of (nextComponent s) s1 =
           (if ov then [(''change'', ChangeListener (nextComponent s))] else [])"
    using assms(1,3) old
    by (auto simp add: StateComponent_constructor_def Let_def addEventListener_def
        listeners_of_def split: if_splits)
qed

lemma events_element_simps:
  "key events_element = ''test''"
  "el_type events_element = TNumber"
  "truthy (useEvents (el_config events_element))"
  "\<not> truthy (useLocalStorage (el_config events_element))"
  "onBeforeSet (el_config events_element) = None"
  by (simp_all add: events_element_def events_options_def StateElement_constructor_def
      spread_StateElementConfig_def default_StateElementConfig_def empty_StateElementConfig_def
      spread_field_def truthy_def)

lemma events_registry_eq:
  "events_registry =
     \<lparr>storage = [''test'' \<mapsto> VNumber (Integer 123)],
      elements = [(''test'', events_element)],
      st_config = \<lparr>useChangeEvent = Some True, useLogs = Some False, prefix = Some [],
                   useRefetchOnFocus = Some True\<rparr>,
      listeners = [], localStorage = Map.empty, nextSymbol = 0, nextComponent = 0,
      console_error = [], dispatched = [], calls = []\<rparr>"
  by (simp add: events_registry_def run_def init_def Let_def events_options_def new_State_def
      change_config_def spread_StateConfig_def default_StateConfig_def spread_field_def
      empty_StateElementConfig_def truthy_def State_set_def events_element_def)

lemma events_constructors:
  "StateComponent_constructor True (Keys [''test'']) events_registry =
     (Inr \<lparr>identity = 0, states = [(''test'', events_element)]\<rparr>,
      events_registry\<lparr>nextComponent := 1, listeners := [(''test'', ElementListener 0 ''test'')]\<rparr>)"
  "StateComponent_constructor True (Flag True) events_registry =
     (Inr \<lparr>identity = 0, states = [(''test'', events_element)]\<rparr>,
      events_registry\<lparr>nextComponent := 1, listeners := [(''test'', ElementListener 0 ''test'')]\<rparr>)"
  "StateComponent_constructor True Absent events_registry =
     (Inr \<lparr>identity = 0, states = []\<rparr>,
      events_registry\<lparr>nextComponent := 1, listeners := [(''change'', ChangeListener 0)]\<rparr>)"
  by (simp_all add: events_registry_eq StateComponent_constructor_def Let_def attach_def
      addListener_def addEventListener_def events_element_simps)

lemma test_registry_eq:
  "test_registry =
     \<lparr>storage = [''test'' \<mapsto> VNumber (Integer 123)],
      elements = [(''test'', StateElement_constructor ''test'' test_options)],
      st_config = default_StateConfig,
      listeners = [], localStorage = Map.empty, nextSymbol = 0, nextComponent = 0,
      console_error = [], dispatched = [], calls = []\<rparr>"
  by (simp add: test_registry_def empty_registry_def init_def Let_def test_options_def
      new_State_def empty_StateElementConfig_def truthy_def State_set_def)

lemma no_events_no_call:
  assumes "\<not> truthy (useEvents (el_config el))"
  shows "calls (snd (StateElement_set h el v s)) = calls s"
proof (cases "typeof v = el_type el")
  case True
  then show ?thesis
    using assms by (simp add: StateElement_set_match State_set_calls)
next
  case False
  then show ?thesis
    by (simp add: StateElement_set_mismatch)
qed

text \<open>
  Claim C4, amended. Let a component whose own class defines \<open>$onStateChange\<close> be
  constructed in a registry a client has reached, and let the client go on. Take a
  \<open>set\<close> of a value of the recorded kind on a slot that has \<open>useEvents\<close> enabled
  and whose persistence step does not throw. Then the component receives exactly one
  call, with the slot's key and the value handed to \<open>State.set\<close>, in each of three
  cases: it was built on a list of distinct keys that holds the slot's key and not the
  key \<open>"change"\<close>; it was built with \<open>true\<close>, the slot was registered at that time and
  no slot then registered is keyed \<open>"change"\<close>; it was built with no argument or
  \<open>false\<close>, the registry has \<open>useChangeEvent\<close> set and the slot is not keyed
  \<open>"change"\<close>. A \<open>set\<close> on a slot that has \<open>useEvents\<close> disabled, of any value,
  makes no call, on this component or on any other.
\<close>

theorem component_notified_once:
  fixes h :: "('n, 'o) host" and history cfg store fresh
  defines "s0 \<equiv> run h history (new_State cfg store fresh)"
  assumes "StateComponent_constructor True arg s0 = (Inr component, s1)"
  shows "(typeof v = el_type el \<and> truthy (useEvents (el_config el)) \<and>
          persistable h (el_config el) (transformed el v) \<longrightarrow>
           (arg = Keys ks \<and> distinct ks \<and> ''change'' \<notin> set ks \<and> key el \<in> set ks \<longrightarrow>
              calls_of (identity component) (snd (StateElement_set h el v (run h acts s1))) =
                calls_of (identity component) (run h acts s1) @
                  [OnStateChange (identity component) (key el) (Detail (transformed el v))]) \<and>
           (arg = Flag True \<and> ''change'' \<notin> fst ` set (elements s0) \<and>
            key el \<in> fst ` set (elements s0) \<longrightarrow>
              calls_of (identity component) (snd (StateElement_set h el v (run h acts s1))) =
                calls_of (identity component) (run h acts s1) @
                  [OnStateChange (identity component) (key el) (Detail (transformed el v))]) \<and>
           ((arg = Absent \<or> arg = Flag False) \<and> truthy (useChangeEvent (st_config s0)) \<and>
            key el \<noteq> ''change'' \<longrightarrow>
              calls_of (identity component) (snd (StateElement_set h el v (run h acts s1))) =
                calls_of (identity component) (run h acts s1) @
                  [OnStateChange (identity component) (key el) (Detail (transformed el v))])) \<and>
         (\<not> truthy (useEvents (el_config el)) \<longrightarrow>
            calls (snd (StateElement_set h el v (run h acts s1))) = calls (run h acts s1) \<and>
            calls_of (identity component) (snd (StateElement_set h el v (run h acts s1))) =
              calls_of (identity component) (run h acts s1))"
proof (intro conjI impI)
  assume off: "\<not> truthy (useEvents (el_config el))"
  show "calls (snd (StateElement_set h el v (run h acts s1))) = calls (run h acts s1)"
    using off by (rule no_events_no_call)
  then show "calls_of (identity component) (snd (StateElement_set h el v (run h acts s1))) =
      calls_of (identity component) (run h acts s1)"
    by (simp add: calls_of_def)
next
  assume on: "typeof v = el_type el \<and> truthy (useEvents (el_config el)) \<and>
          persistable h (el_config el) (transformed el v)"
  let ?c = "nextComponent s0"
  have w: "well_formed s0"
    unfolding s0_def by (rule well_formed_run [OF well_formed_new_State])
  have ev: "evolves s1 (run h acts s1)"
    by (rule evolves_run)
  have cfg1: "st_config s1 = st_config s0"
    using evolves_constructor [of s0 True arg] assms(2) by (simp add: evolves_def)
  from on have on1: "typeof v = el_type el" and on2: "truthy (useEvents (el_config el))"
    and on3: "persistable h (el_config el) (transformed el v)"
    by simp_all
  note n = notified [OF ev _ on1 on2 on3, of ?c]
  {
    assume a: "arg = Keys ks \<and> distinct ks \<and> ''change'' \<notin> set ks \<and> key el \<in> set ks"
    note k = constructor_Keys [OF assms(2) [unfolded conjunct1 [OF a]] w]
    show "calls_of (identity component) (snd (StateElement_set h el v (run h acts s1))) =
              calls_of (identity component) (run h acts s1) @
                [OnStateChange (identity component) (key el) (Detail (transformed el v))]"
      using n a by (simp add: k delivered_keys)
  next
    assume a: "arg = Flag True \<and> ''change'' \<notin> fst ` set (elements s0) \<and>
          key el \<in> fst ` set (elements s0)"
    note k = constructor_All [OF assms(2) [unfolded conjunct1 [OF a]] w]
    have d: "distinct (map fst (elements s0))"
      using w by (simp add: well_formed_def)
    have del: "delivered (listeners_of ?c s1) (CustomEvent t d) =
        (if t \<in> set (map fst (elements s0)) then [OnStateChange ?c t d] else [])"
      for t and d :: "('n, 'o) detail"
      by (simp only: k(3) if_True delivered_keys [OF d])
    show "calls_of (identity component) (snd (StateElement_set h el v (run h acts s1))) =
              calls_of (identity component) (run h acts s1) @
                [OnStateChange (identity component) (key el) (Detail (transformed el v))]"
      using n a by (simp add: k(1,2) del)
  next
    assume a: "(arg = Absent \<or> arg = Flag False) \<and> truthy (useChangeEvent (st_config s0)) \<and>
          key el \<noteq> ''change''"
    note k = constructor_None [OF assms(2) w conjunct1 [OF a]]
    show "calls_of (identity component) (snd (StateElement_set h el v (run h acts s1))) =
              calls_of (identity component) (run h acts s1) @
                [OnStateChange (identity component) (key el) (Detail (transformed el v))]"
      using n a by (simp add: k delivered_change cfg1)
  }
qed

theorem component_notified_once_witness:
  "typeof (VNumber (Integer 456) :: (demo_number, demo_object) StorageValue) = el_type events_element \<and>
   truthy (useEvents (el_config events_element)) \<and>
   persistable demo_host (el_config events_element) (VNumber (Integer 456)) \<and>
   truthy (useChangeEvent (st_config events_registry)) \<and>
   fst (StateComponent_constructor True (Keys [''test'']) events_registry) =
     Inr \<lparr>identity = 0, states = [(''test'', events_element)]\<rparr> \<and>
   calls_of 0 (snd (StateElement_set demo_host events_element (VNumber (Integer 456))
       (run demo_host [] (snd (StateComponent_constructor True (Keys [''test'']) events_registry))))) =
     [OnStateChange 0 ''test'' (Detail (VNumber (Integer 456)))] \<and>
   fst (StateComponent_constructor True (Flag True) events_registry) =
     Inr \<lparr>identity = 0, states = [(''test'', events_element)]\<rparr> \<and>
   calls_of 0 (snd (StateElement_set demo_host events_element (VNumber (Integer 456))
       (run demo_host [] (snd (StateComponent_constructor True (Flag True) events_registry))))) =
     [OnStateChange 0 ''test'' (Detail (VNumber (Integer 456)))] \<and>
   fst (StateComponent_constructor True Absent events_registry) =
     Inr \<lparr>identity = 0, states = []\<rparr> \<and>
   calls_of 0 (snd (StateElement_set demo_host events_element (VNumber (Integer 456))
       (run demo_host [] (snd (StateComponent_constructor True Absent events_registry))))) =
     [OnStateChange 0 ''test'' (Detail (VNumber (Integer 456)))] \<and>
   \<not> truthy (useEvents (el_config (StateElement_constructor ''test'' test_options))) \<and>
   calls (snd (StateElement_set demo_host (StateElement_constructor ''test'' test_options)
       (VNumber (Integer 456))
       (run demo_host [] (snd (StateComponent_constructor True (Keys [''test'']) events_registry))))) =
     [] \<and>
   calls_of 0 (snd (StateElement_set demo_host (StateElement_constructor ''test'' test_options)
       (VNumber (Integer 456))
       (run demo_host [] (snd (StateComponent_constructor True (Keys [''test'']) events_registry))))) =
     []"
proof -
  let ?v = "VNumber (Integer 456) :: (demo_number, demo_object) StorageValue"
  let ?off = "StateElement_constructor ''test'' test_options"
  have ty: "typeof ?v = el_type events_element"
    and ue: "truthy (useEvents (el_config events_element))"
    and p: "persistable demo_host (el_config events_element) (transformed events_element ?v)"
    and t: "transformed events_element ?v = ?v"
    by (simp_all add: events_element_simps persistable_def transformed_def)
  have on: "typeof ?v = el_type events_element \<and> truthy (useEvents (el_config events_element)) \<and>
      persistable demo_host (el_config events_element) (transformed events_element ?v)"
    using ty ue p by simp
  have off: "\<not> truthy (useEvents (el_config ?off))"
    by (simp add: StateElement_constructor_def test_options_def default_StateElementConfig_def
        truthy_def)
  have ch: "truthy (useChangeEvent (st_config events_registry))"
    and el: "elements events_registry = [(''test'', events_element)]"
    and cl: "calls events_registry = []"
    by (simp_all add: events_registry_eq truthy_def)
  have none: "calls_of 0 (run demo_host [] s) = []" "calls (run demo_host [] s) = []"
    if "calls s = []" for s :: "(demo_number, demo_object) State"
    using that by (simp_all add: run_def calls_of_def)
  note c = events_constructors [unfolded events_registry_def]
  note inst = component_notified_once [where h = demo_host
      and history = "[Init ''test'' events_options]"
      and cfg = "Some change_config" and store = Map.empty and fresh = 0
      and acts = "[]" and ks = "[''test'']"]
  note on_inst = inst [where el = events_element and v = ?v]
  have r1: "calls_of 0 (snd (StateElement_set demo_host events_element ?v
       (run demo_host [] (snd (StateComponent_constructor True (Keys [''test'']) events_registry))))) =
     [OnStateChange 0 ''test'' (Detail ?v)]"
    using on_inst [OF c(1), folded events_registry_def] on none(1) cl
    by (simp add: events_constructors events_element_simps t)
  have r2: "calls_of 0 (snd (StateElement_set demo_host events_element ?v
       (run demo_host [] (snd (StateComponent_constructor True (Flag True) events_registry))))) =
     [OnStateChange 0 ''test'' (Detail ?v)]"
    using on_inst [OF c(2), folded events_registry_def] on none(1) cl el
    by (simp add: events_constructors events_element_simps t)
  have r3: "calls_of 0 (snd (StateElement_set demo_host events_element ?v
       (run demo_host [] (snd (StateComponent_constructor True Absent events_registry))))) =
     [OnStateChange 0 ''test'' (Detail ?v)]"
    using on_inst [OF c(3), folded events_registry_def] on none(1) cl ch
    by (simp add: events_constructors events_element_simps t)
  have r4: "calls (snd (StateElement_set demo_host ?off ?v
       (run demo_host [] (snd (StateComponent_constructor True (Keys [''test'']) events_registry))))) =
     []"
    "calls_of 0 (snd (StateElement_set demo_host ?off ?v
       (run demo_host [] (snd (StateComponent_constructor True (Keys [''test'']) events_registry))))) =
     []"
    using inst [where el = ?off and v = ?v, OF c(1), folded events_registry_def] off none cl
    by (simp_all add: events_constructors)
  show ?thesis
    using ty ue p ch off r1 r2 r3 r4 by (simp add: events_constructors t)
qed

text \<open>
  A slot with the default configuration has \<open>useEvents\<close> disabled: a component
  bound to its key, with an override, receives no call when the slot is set.
\<close>

theorem component_not_notified_without_events:
  "fst (StateComponent_constructor True (Keys [''test'']) test_registry) =
     Inr \<lparr>identity = 0, states = [(''test'', StateElement_constructor ''test'' test_options)]\<rparr> \<and>
   fst (StateElement_set demo_host (StateElement_constructor ''test'' test_options)
     (VNumber (Integer 456))
     (snd (StateComponent_constructor True (Keys [''test'']) test_registry))) = None \<and>
   StateElement_get (StateElement_constructor ''test'' test_options)
     (snd (StateElement_set demo_host (StateElement_constructor ''test'' test_options)
        (VNumber (Integer 456))
        (snd (StateComponent_constructor True (Keys [''test'']) test_registry)))) =
     Some (VNumber (Integer 456)) \<and>
   calls_of 0
     (snd (StateElement_set demo_host (StateElement_constructor ''test'' test_options)
        (VNumber (Integer 456))
        (snd (StateComponent_constructor True (Keys [''test'']) test_registry)))) = []"
proof -
  let ?el = "StateElement_constructor ''test'' test_options"
  have el: "key ?el = ''test''" "el_type ?el = TNumber"
    "\<not> truthy (useEvents (el_config ?el))" "\<not> truthy (useLocalStorage (el_config ?el))"
    "onBeforeSet (el_config ?el) = None"
    by (simp_all add: StateElement_constructor_def test_options_def
        default_StateElementConfig_def truthy_def)
  have con: "StateComponent_constructor True (Keys [''test'']) test_registry =
     (Inr \<lparr>identity = 0, states = [(''test'', ?el)]\<rparr>,
      test_registry\<lparr>nextComponent := 1, listeners := [(''test'', ElementListener 0 ''test'')]\<rparr>)"
    by (simp add: test_registry_eq StateComponent_constructor_def Let_def attach_def
        addListener_def addEventListener_def el)
  have tr: "calls test_registry = []"
    by (simp add: test_registry_eq)
  show ?thesis
    by (simp add: con StateElement_set_def State_set_def el StateElement_get_def State_get_def
        calls_of_def tr)
qed

subsection \<open>The focus pass\<close>

lemma refetch_resync: "refetch h entry s = (None, resync h entry s)"
  by (simp add: refetch_def resync_def Let_def try_catch_def refetch_set_def console_error_log_def
      split: option.splits sum.splits prod.splits)

lemma forEach_total:
  assumes "\<And>x s. f x s = (None, g x s)"
  shows "forEach f xs s = (None, foldl (\<lambda>s' x. g x s') s xs)"
  by (induction xs arbitrary: s) (simp_all add: assms)

lemma window_focus_resync:
  "window_focus h s =
     (None, if truthy (useRefetchOnFocus (st_config s))
            then foldl (\<lambda>s' entry. resync h entry s') s (elements s) else s)"
  by (simp add: window_focus_def forEach_total [of "refetch h" "resync h"] refetch_resync)

lemma prefixKey_injective: "prefixKey s k = prefixKey s k' \<longleftrightarrow> k = k'"
  by (simp add: prefixKey_def split: option.splits)

lemma prefixKey_config: "st_config s' = st_config s \<Longrightarrow> prefixKey s' k = prefixKey s k"
  by (simp add: prefixKey_def)

lemma StateElement_set_frame:
  "console_error (snd (StateElement_set h el v s)) = console_error s"
  "st_config (snd (StateElement_set h el v s)) = st_config s"
  "k \<noteq> key el \<Longrightarrow> storage (snd (StateElement_set h el v s)) k = storage s k"
  "k \<noteq> key el \<Longrightarrow>
     localStorage (snd (StateElement_set h el v s)) (prefixKey s k) = localStorage s (prefixKey s k)"
  by (cases "typeof v = el_type el";
      simp add: StateElement_set_match StateElement_set_mismatch State_set_fields
        State_set_storage State_set_localStorage prefixKey_injective
      split: sum.splits option.splits)+

lemma resync_skip:
  "\<not> refetches el \<or> localStorage s (prefixKey s k) = None \<Longrightarrow> resync h (k, el) s = s"
  by (auto simp add: resync_def refetches_def)

lemma resync_decode:
  "refetches el \<Longrightarrow> localStorage s (prefixKey s k) = Some str \<Longrightarrow>
   valueFromString h (nextSymbol s) str (el_type el) = Inl e \<Longrightarrow>
   resync h (k, el) s = s\<lparr>console_error := console_error s @ [e]\<rparr>"
  by (simp add: resync_def refetches_def)

lemma resync_apply:
  "refetches el \<Longrightarrow> localStorage s (prefixKey s k) = Some str \<Longrightarrow>
   valueFromString h (nextSymbol s) str (el_type el) = Inr v \<Longrightarrow>
   resync h (k, el) s =
     (case fst (StateElement_set h el v (s\<lparr>nextSymbol := Suc (nextSymbol s)\<rparr>)) of
        None \<Rightarrow> snd (StateElement_set h el v (s\<lparr>nextSymbol := Suc (nextSymbol s)\<rparr>))
      | Some e \<Rightarrow>
          (snd (StateElement_set h el v (s\<lparr>nextSymbol := Suc (nextSymbol s)\<rparr>)))
            \<lparr>console_error :=
               console_error (snd (StateElement_set h el v
                 (s\<lparr>nextSymbol := Suc (nextSymbol s)\<rparr>))) @ [e]\<rparr>)"
  by (simp add: resync_def refetches_def split: prod.splits option.splits)

lemma resync_frame:
  "st_config (resync h entry s) = st_config s"
  "set (console_error s) \<subseteq> set (console_error (resync h entry s))"
  "k \<noteq> key (snd entry) \<Longrightarrow> storage (resync h entry s) k = storage s k"
  "k \<noteq> key (snd entry) \<Longrightarrow>
     localStorage (resync h entry s) (prefixKey s k) = localStorage s (prefixKey s k)"
proof -
  obtain k' el where entry: "entry = (k', el)"
    by (cases entry)
  let ?P = "\<lambda>s'. st_config s' = st_config s \<and> set (console_error s) \<subseteq> set (console_error s') \<and>
      (k \<noteq> key el \<longrightarrow> storage s' k = storage s k \<and>
         localStorage s' (prefixKey s k) = localStorage s (prefixKey s k))"
  have "?P (resync h (k', el) s)"
  proof (cases "\<not> refetches el \<or> localStorage s (prefixKey s k') = None")
    case True
    then show ?thesis by (simp add: resync_skip)
  next
    case False
    then obtain str where r: "refetches el"
      and str: "localStorage s (prefixKey s k') = Some str"
      by auto
    show ?thesis
    proof (cases "valueFromString h (nextSymbol s) str (el_type el)")
      case (Inl e)
      show ?thesis
        by (auto simp add: resync_decode [OF r str Inl])
    next
      case (Inr v)
      let ?s1 = "s\<lparr>nextSymbol := Suc (nextSymbol s)\<rparr>"
      have p: "prefixKey s k = prefixKey ?s1 k"
        by (simp add: prefixKey_def)
      show ?thesis
        unfolding p
        by (auto simp add: resync_apply [OF r str Inr] StateElement_set_frame
            split: option.splits)
    qed
  qed
  then show "st_config (resync h entry s) = st_config s"
    "set (console_error s) \<subseteq> set (console_error (resync h entry s))"
    "k \<noteq> key (snd entry) \<Longrightarrow> storage (resync h entry s) k = storage s k"
    "k \<noteq> key (snd entry) \<Longrightarrow>
     localStorage (resync h entry s) (prefixKey s k) = localStorage s (prefixKey s k)"
    unfolding entry by auto
qed

lemma valueFromString_Inl_any:
  "valueFromString h m str ty = Inl e \<Longrightarrow>
   valueFromString h n str ty = Inl e \<and> ty \<noteq> TSymbol"
  by (cases ty) auto

lemma valueFromString_Inr_any:
  "valueFromString h m str ty = Inr v \<Longrightarrow>
   \<exists>v'. valueFromString h n str ty = Inr v' \<and> typeof v' = typeof v \<and>
        (ty \<noteq> TSymbol \<longrightarrow> v' = v) \<and> (ty = TSymbol \<longrightarrow> v = VSymbol m (Some str))"
  by (cases ty) auto

lemma settled_here:
  assumes "refetches el" and "key el = k" and "localStorage s (prefixKey s k) = Some str"
  shows "settled h k el str (resync h (k, el) s)"
proof (cases "valueFromString h (nextSymbol s) str (el_type el)")
  case (Inl e)
  have r: "resync h (k, el) s = s\<lparr>console_error := console_error s @ [e]\<rparr>"
    using assms Inl by (simp add: resync_decode)
  have "valueFromString h n str (el_type el) = Inl e \<and> el_type el \<noteq> TSymbol" for n
    using Inl by (rule valueFromString_Inl_any)
  then show ?thesis
    unfolding settled_def r by simp
next
  case (Inr v)
  let ?s1 = "s\<lparr>nextSymbol := Suc (nextSymbol s)\<rparr>"
  let ?r = "StateElement_set h el v ?s1"
  have r: "resync h (k, el) s =
      (case fst ?r of None \<Rightarrow> snd ?r
       | Some e \<Rightarrow> (snd ?r)\<lparr>console_error := console_error (snd ?r) @ [e]\<rparr>)"
    using assms Inr by (simp add: resync_apply)
  have any: "\<exists>v'. valueFromString h n str (el_type el) = Inr v' \<and> typeof v' = typeof v \<and>
        (el_type el \<noteq> TSymbol \<longrightarrow> v' = v) \<and>
        (el_type el = TSymbol \<longrightarrow> v = VSymbol (nextSymbol s) (Some str))" for n
    using Inr by (rule valueFromString_Inr_any)
  show ?thesis
  proof (cases "typeof v = el_type el")
    case True
    have st: "storage (resync h (k, el) s) k = Some (transformed el v)"
      using StateElement_set_get [OF True, of h ?s1] assms(2)
      by (simp add: r StateElement_get_def State_get_def split: option.splits)
    show ?thesis
      unfolding settled_def
    proof (intro conjI allI impI)
      fix n e
      assume "valueFromString h n str (el_type el) = Inl e"
      then show "e \<in> set (console_error (resync h (k, el) s))"
        using any [of n] by auto
    next
      fix n v'
      assume "valueFromString h n str (el_type el) = Inr v' \<and> typeof v' \<noteq> el_type el"
      then show "TypeMismatch (el_type el) (typeof v') \<in> set (console_error (resync h (k, el) s))"
        using any [of n] True by auto
    next
      fix n v'
      assume "valueFromString h n str (el_type el) = Inr v' \<and> typeof v' = el_type el \<and>
        el_type el \<noteq> TSymbol"
      then show "storage (resync h (k, el) s) k = Some (transformed el v')"
        using any [of n] st by auto
    next
      assume "el_type el = TSymbol"
      then show "\<exists>m. storage (resync h (k, el) s) k = Some (transformed el (VSymbol m (Some str)))"
        using any [of 0] st by auto
    qed
  next
    case False
    have m: "resync h (k, el) s =
        ?s1\<lparr>console_error := console_error ?s1 @ [TypeMismatch (el_type el) (typeof v)]\<rparr>"
      using False by (simp add: r StateElement_set_mismatch)
    show ?thesis
      unfolding settled_def
    proof (intro conjI allI impI)
      fix n e
      assume "valueFromString h n str (el_type el) = Inl e"
      then show "e \<in> set (console_error (resync h (k, el) s))"
        using any [of n] by auto
    next
      fix n v'
      assume "valueFromString h n str (el_type el) = Inr v' \<and> typeof v' \<noteq> el_type el"
      then show "TypeMismatch (el_type el) (typeof v') \<in> set (console_error (resync h (k, el) s))"
        using any [of n] by (auto simp add: m)
    next
      fix n v'
      assume "valueFromString h n str (el_type el) = Inr v' \<and> typeof v' = el_type el \<and>
        el_type el \<noteq> TSymbol"
      then show "storage (resync h (k, el) s) k = Some (transformed el v')"
        using any [of n] False by auto
    next
      assume "el_type el = TSymbol"
      then show "\<exists>m. storage (resync h (k, el) s) k = Some (transformed el (VSymbol m (Some str)))"
        using any [of 0] False by auto
    qed
  qed
qed

lemma settled_stable:
  assumes "settled h k el str s" and "k \<noteq> key (snd entry)"
  shows "settled h k el str (resync h entry s)"
  using assms resync_frame(2) [of s h entry] resync_frame(3) [OF assms(2), of h s]
  unfolding settled_def by (auto simp add: subset_iff)

lemma settled_foldl:
  assumes "settled h k el str s" and "list_all (\<lambda>entry. key (snd entry) \<noteq> k) es"
  shows "settled h k el str (foldl (\<lambda>s' entry. resync h entry s') s es)"
  using assms
  by (induction es arbitrary: s) (auto simp add: settled_stable)

lemma settled_pass:
  assumes "(k, el) \<in> set es" and "distinct (map fst es)"
    and "list_all (\<lambda>entry. key (snd entry) = fst entry) es"
    and "refetches el" and "localStorage s (prefixKey s k) = Some str"
  shows "settled h k el str (foldl (\<lambda>s' entry. resync h entry s') s es)"
  using assms
proof (induction es arbitrary: s)
  case Nil
  then show ?case by simp
next
  case (Cons x xs)
  show ?case
  proof (cases "x = (k, el)")
    case True
    have key: "key el = k"
      using Cons.prems(3) True by simp
    have here: "settled h k el str (resync h (k, el) s)"
      using Cons.prems(4) key Cons.prems(5) by (rule settled_here)
    have "list_all (\<lambda>entry. key (snd entry) \<noteq> k) xs"
      using Cons.prems(2,3) True by (force simp add: list_all_iff)
    with here show ?thesis
      using True by (simp add: settled_foldl)
  next
    case False
    then have mem: "(k, el) \<in> set xs"
      using Cons.prems(1) by simp
    then have "fst x \<noteq> k"
      using Cons.prems(2) by (auto simp add: image_iff)
    then have ne: "k \<noteq> key (snd x)"
      using Cons.prems(3) by auto
    have "localStorage (resync h x s) (prefixKey (resync h x s) k) = Some str"
      using resync_frame(4) [OF ne, of h s] Cons.prems(5)
      by (simp add: prefixKey_config [OF resync_frame(1)])
    then have "settled h k el str (foldl (\<lambda>s' entry. resync h entry s') (resync h x s) xs)"
      using Cons.IH [OF mem _ _ Cons.prems(4)] Cons.prems(2,3) by simp
    then show ?thesis by simp
  qed
qed

text \<open>
  Claim C7. The focus listener throws nothing. When the registry has
  \<open>useRefetchOnFocus\<close> set, the pass visits the registered slots in order and does
  to each what \<open>resync\<close> says: a slot with persistence and focus refetch enabled and a
  persisted string has the decoded value applied by \<open>StateElement.set\<close>, and an error
  of decoding or of \<open>set\<close> is logged. In a registry a client has reached, this holds
  of every such slot whatever happens to the others: after the pass a decoding error of
  the slot is in the log, or the mismatch error of \<open>set\<close> is, or the stored value is
  the decoded one as the hook transforms it.
\<close>

theorem focus_resynchronization:
  fixes h :: "('n, 'o) host" and history cfg store fresh
  defines "s \<equiv> run h history (new_State cfg store fresh)"
  shows "fst (window_focus h s) = None \<and>
         snd (window_focus h s) =
           (if truthy (useRefetchOnFocus (st_config s))
            then foldl (\<lambda>s' entry. resync h entry s') s (elements s) else s) \<and>
         (truthy (useRefetchOnFocus (st_config s)) \<and> (k, el) \<in> set (elements s) \<and>
          truthy (useLocalStorage (el_config el)) \<and> truthy (useRefetchOnFocus_el (el_config el)) \<and>
          localStorage s (prefixKey s k) = Some str \<longrightarrow>
            (valueFromString h n str (el_type el) = Inl e \<longrightarrow>
               e \<in> set (console_error (snd (window_focus h s)))) \<and>
            (valueFromString h n str (el_type el) = Inr v \<and> typeof v \<noteq> el_type el \<longrightarrow>
               TypeMismatch (el_type el) (typeof v) \<in> set (console_error (snd (window_focus h s)))) \<and>
            (valueFromString h n str (el_type el) = Inr v \<and> typeof v = el_type el \<and>
             el_type el \<noteq> TSymbol \<longrightarrow>
               State_get (snd (window_focus h s)) k = Some (transformed el v)) \<and>
            (el_type el = TSymbol \<longrightarrow>
               (\<exists>m. State_get (snd (window_focus h s)) k =
                  Some (transformed el (VSymbol m (Some str))))))"
proof (intro conjI impI)
  show "fst (window_focus h s) = None"
    by (simp add: window_focus_resync)
  show "snd (window_focus h s) =
           (if truthy (useRefetchOnFocus (st_config s))
            then foldl (\<lambda>s' entry. resync h entry s') s (elements s) else s)"
    by (simp add: window_focus_resync)
next
  assume a: "truthy (useRefetchOnFocus (st_config s)) \<and> (k, el) \<in> set (elements s) \<and>
          truthy (useLocalStorage (el_config el)) \<and> truthy (useRefetchOnFocus_el (el_config el)) \<and>
          localStorage s (prefixKey s k) = Some str"
  have w: "well_formed s"
    unfolding s_def by (rule well_formed_run [OF well_formed_new_State])
  have "settled h k el str (foldl (\<lambda>s' entry. resync h entry s') s (elements s))"
    using a w by (intro settled_pass) (simp_all add: well_formed_def refetches_def)
  then have st: "settled h k el str (snd (window_focus h s))"
    using a by (simp add: window_focus_resync)
  show "e \<in> set (console_error (snd (window_focus h s)))"
    if "valueFromString h n str (el_type el) = Inl e"
    using st that unfolding settled_def by blast
  show "TypeMismatch (el_type el) (typeof v) \<in> set (console_error (snd (window_focus h s)))"
    if "valueFromString h n str (el_type el) = Inr v \<and> typeof v \<noteq> el_type el"
    using st that unfolding settled_def by blast
  show "State_get (snd (window_focus h s)) k = Some (transformed el v)"
    if "valueFromString h n str (el_type el) = Inr v \<and> typeof v = el_type el \<and>
             el_type el \<noteq> TSymbol"
    using st that unfolding settled_def State_get_def by blast
  show "\<exists>m. State_get (snd (window_focus h s)) k = Some (transformed el (VSymbol m (Some str)))"
    if "el_type el = TSymbol"
    using st that unfolding settled_def State_get_def by blast
qed

text \<open>
  An example: four persistent slots, of kind object, number, bigint and symbol, and a
  string for each in the store. The first string is not JSON and the third decodes to a
  number; both errors are logged, and the second and the fourth slot are updated.
\<close>

lemma focus_elements_simps:
  "el_type (StateElement_constructor ''o'' persistent_object_options) = TObject"
  "el_type (StateElement_constructor ''clicks'' clicks_options) = TNumber"
  "el_type (StateElement_constructor ''count'' count_options) = TBigint"
  "el_type (StateElement_constructor ''sym'' symbol_options) = TSymbol"
  "refetches (StateElement_constructor ''o'' persistent_object_options)"
  "refetches (StateElement_constructor ''clicks'' clicks_options)"
  "refetches (StateElement_constructor ''count'' count_options)"
  "refetches (StateElement_constructor ''sym'' symbol_options)"
  "onBeforeSet (el_config (StateElement_constructor ''clicks'' clicks_options)) = None"
  "onBeforeSet (el_config (StateElement_constructor ''sym'' symbol_options)) = None"
  by (simp_all add: StateElement_constructor_def persistent_object_options_def clicks_options_def
      count_options_def symbol_options_def refetches_def
      persist_config_def spread_StateElementConfig_def default_StateElementConfig_def
      empty_StateElementConfig_def spread_field_def truthy_def)

lemma focus_registry_simps:
  "elements focus_registry =
     [(''o'', StateElement_constructor ''o'' persistent_object_options),
      (''clicks'', StateElement_constructor ''clicks'' clicks_options),
      (''count'', StateElement_constructor ''count'' count_options),
      (''sym'', StateElement_constructor ''sym'' symbol_options)]"
  "st_config focus_registry = default_StateConfig"
  "localStorage focus_registry ''o'' = Some ''{''"
  "localStorage focus_registry ''clicks'' = Some ''7''"
  "localStorage focus_registry ''count'' = Some ''5''"
  "localStorage focus_registry ''sym'' = Some ''tag''"
  by (simp_all add: focus_registry_def focus_history_def run_def init_def Let_def new_State_def
      persistent_object_options_def clicks_options_def count_options_def symbol_options_def
      persist_config_def
      empty_StateElementConfig_def truthy_def State_set_def prefixKey_def default_StateConfig_def
      demo_host_def demo_stringify_def demo_numberToString_def)

theorem focus_resynchronization_witness:
  "truthy (useRefetchOnFocus (st_config focus_registry)) \<and>
   fst (window_focus demo_host focus_registry) = None \<and>
   (''o'', StateElement_constructor ''o'' persistent_object_options) \<in> set (elements focus_registry) \<and>
   localStorage focus_registry (prefixKey focus_registry ''o'') = Some ''{'' \<and>
   valueFromString demo_host 0 ''{''
     (el_type (StateElement_constructor ''o'' persistent_object_options)) =
     Inl (HostError ''SyntaxError'') \<and>
   HostError ''SyntaxError'' \<in> set (console_error (snd (window_focus demo_host focus_registry))) \<and>
   (''clicks'', StateElement_constructor ''clicks'' clicks_options) \<in> set (elements focus_registry) \<and>
   localStorage focus_registry (prefixKey focus_registry ''clicks'') = Some ''7'' \<and>
   valueFromString demo_host 0 ''7''
     (el_type (StateElement_constructor ''clicks'' clicks_options)) =
     Inr (VNumber (Integer 7)) \<and>
   State_get (snd (window_focus demo_host focus_registry)) ''clicks'' = Some (VNumber (Integer 7)) \<and>
   (''count'', StateElement_constructor ''count'' count_options) \<in> set (elements focus_registry) \<and>
   localStorage focus_registry (prefixKey focus_registry ''count'') = Some ''5'' \<and>
   valueFromString demo_host 0 ''5''
     (el_type (StateElement_constructor ''count'' count_options)) =
     Inr (VNumber (Integer 5)) \<and>
   TypeMismatch TBigint TNumber \<in> set (console_error (snd (window_focus demo_host focus_registry))) \<and>
   (''sym'', StateElement_constructor ''sym'' symbol_options) \<in> set (elements focus_registry) \<and>
   localStorage focus_registry (prefixKey focus_registry ''sym'') = Some ''tag'' \<and>
   (\<exists>m. State_get (snd (window_focus demo_host focus_registry)) ''sym'' =
      Some (VSymbol m (Some ''tag'')))"
proof -
  let ?o = "StateElement_constructor ''o'' persistent_object_options"
  let ?c = "StateElement_constructor ''clicks'' clicks_options"
  let ?b = "StateElement_constructor ''count'' count_options"
  let ?y = "StateElement_constructor ''sym'' symbol_options"
  have pk: "prefixKey focus_registry k = k" for k
    by (simp add: prefixKey_def focus_registry_simps default_StateConfig_def)
  have f: "truthy (useRefetchOnFocus (st_config focus_registry))"
    by (simp add: focus_registry_simps default_StateConfig_def truthy_def)
  have d1: "valueFromString demo_host 0 ''{'' (el_type ?o) = Inl (HostError ''SyntaxError'')"
    and d2: "valueFromString demo_host 0 ''7'' (el_type ?c) = Inr (VNumber (Integer 7))"
    and d3: "valueFromString demo_host 0 ''5'' (el_type ?b) = Inr (VNumber (Integer 5))"
    by (simp_all add: focus_elements_simps demo_host_def demo_parse_defs)
  have t: "transformed ?c v = v" "transformed ?y v = v" for v
    by (simp_all add: transformed_def focus_elements_simps)
  have m: "(''o'', ?o) \<in> set (elements focus_registry)"
    "(''clicks'', ?c) \<in> set (elements focus_registry)"
    "(''count'', ?b) \<in> set (elements focus_registry)"
    "(''sym'', ?y) \<in> set (elements focus_registry)"
    by (simp_all add: focus_registry_simps(1))
  have ls: "localStorage focus_registry (prefixKey focus_registry ''o'') = Some ''{''"
    "localStorage focus_registry (prefixKey focus_registry ''clicks'') = Some ''7''"
    "localStorage focus_registry (prefixKey focus_registry ''count'') = Some ''5''"
    "localStorage focus_registry (prefixKey focus_registry ''sym'') = Some ''tag''"
    by (simp_all add: pk focus_registry_simps)
  have e: "truthy (useLocalStorage (el_config el)) \<and> truthy (useRefetchOnFocus_el (el_config el))"
    if "refetches el" for el :: "(demo_number, demo_object) StateElement"
    using that by (simp add: refetches_def)
  note inst = focus_resynchronization [where h = demo_host and history = focus_history and cfg = None
      and store = Map.empty and fresh = 0 and n = 0, folded focus_registry_def]
  have r0: "fst (window_focus demo_host focus_registry) = None"
    using inst by blast
  have r1: "HostError ''SyntaxError'' \<in> set (console_error (snd (window_focus demo_host focus_registry)))"
    using inst [where k = "''o''" and el = ?o and str = "''{''" and e = "HostError ''SyntaxError''"]
      f m(1) ls(1) e [OF focus_elements_simps(5)] d1
    by blast
  have ty: "typeof (VNumber (Integer 7) :: (demo_number, demo_object) StorageValue) = el_type ?c"
    "el_type ?c \<noteq> TSymbol"
    "typeof (VNumber (Integer 5) :: (demo_number, demo_object) StorageValue) \<noteq> el_type ?b"
    "el_type ?y = TSymbol"
    by (simp_all add: focus_elements_simps)
  have r2: "State_get (snd (window_focus demo_host focus_registry)) ''clicks'' =
      Some (transformed ?c (VNumber (Integer 7)))"
    using inst [where k = "''clicks''" and el = ?c and str = "''7''" and v = "VNumber (Integer 7)"]
      f m(2) ls(2) e [OF focus_elements_simps(6)] d2 ty(1,2)
    by blast
  have r3: "TypeMismatch (el_type ?b) (typeof (VNumber (Integer 5) :: (demo_number, demo_object) StorageValue)) \<in>
      set (console_error (snd (window_focus demo_host focus_registry)))"
    using inst [where k = "''count''" and el = ?b and str = "''5''" and v = "VNumber (Integer 5)"]
      f m(3) ls(3) e [OF focus_elements_simps(7)] d3 ty(3)
    by blast
  have r4: "\<exists>m. State_get (snd (window_focus demo_host focus_registry)) ''sym'' =
      Some (transformed ?y (VSymbol m (Some ''tag'')))"
    using inst [where k = "''sym''" and el = ?y and str = "''tag''"]
      f m(4) ls(4) e [OF focus_elements_simps(8)] ty(4)
    by blast
  show ?thesis
    using f r0 r1 r2 r3 r4 m d1 d2 d3 ls by (simp add: t focus_elements_simps(3))
qed

end
